theory Spec2Isabelle
  imports Complex_Main
begin

section \<open>Data model of the gesture interpreter\<close>

text \<open>
  The development embeds \<^verbatim>\<open>src/composables/useGesture.ts\<close>. JavaScript numbers are read
  as real numbers (no rounding, no NaN), \<^verbatim>\<open>performance.now()\<close> and the viewport size are
  inputs of every call, and the closure variables \<^verbatim>\<open>gestureState\<close>, \<^verbatim>\<open>STATE\<close> and
  \<^verbatim>\<open>positionBuffer\<close> are threaded explicitly through every function.
  The coordinate fields \<^verbatim>\<open>x\<close>, \<^verbatim>\<open>y\<close>, \<^verbatim>\<open>z\<close> carry a prefix (\<open>lx\<close>, \<open>px\<close>, \<open>cx\<close>), and the
  fields of the detection result carry the prefix \<open>res_\<close>.
\<close>

datatype GestureMode = ModeNone | ModeClick | ModeDrag | ModeRotate | ModeScroll

datatype HandPreference = Left | Right | Both

datatype SmoothingProfile = Fast | Balanced | Smooth

text \<open>The keys written into \<^verbatim>\<open>events: Record<string, boolean>\<close>; only the value
  \<^verbatim>\<open>true\<close> is ever stored, so the record is the set of its keys.\<close>

datatype GestureEvent =
    CLICK | DOUBLE_CLICK
  | DRAG_START | DRAG_MOVE | DRAG_END
  | DRAG_MIDDLE_START | DRAG_MIDDLE_MOVE | DRAG_MIDDLE_END
  | IDLE | POINTER_MOVE

record Landmark =
  lx :: real
  ly :: real
  lz :: real

record Category =
  score :: real
  categoryName :: string

text \<open>\<^verbatim>\<open>GestureResult\<close> of \<^verbatim>\<open>types.ts\<close>. The field \<^verbatim>\<open>landmarks\<close> is optional here
  because \<^verbatim>\<open>handleResult\<close> tests \<^verbatim>\<open>!result.landmarks\<close>; an entry of \<open>res_gestures\<close> is the
  \<^verbatim>\<open>categories\<close> array of that hand.\<close>

record GestureResult =
  res_landmarks :: "Landmark list list option"
  res_gestures :: "Category list list"
  res_handednesses :: "Category list list"

record Config =
  hand :: HandPreference
  smoothing :: SmoothingProfile
  roi :: real
  videoSource :: string

record Point =
  px :: real
  py :: real

record Cursor =
  cx :: real
  cy :: real
  active :: bool
  mode :: GestureMode

record DebugInfo =
  rootPos :: Point
  handScale :: real
  baseRoi :: real
  effectiveRoi :: real
  landmarks :: "Landmark list"
  handedness :: string

record GestureState =
  cursor :: Cursor
  gestures :: "string list"
  events :: "GestureEvent set"
  debugInfo :: DebugInfo

text \<open>The object \<^verbatim>\<open>STATE\<close>. \<open>clickTimer\<close> holds the due time of the pending
  \<^verbatim>\<open>setTimeout\<close> callback, \<open>None\<close> when no callback is pending (never set, cleared, or
  already run: \<^verbatim>\<open>clearTimeout\<close> of a timer that has run does nothing).\<close>

record InteractionState =
  lastPinchTime :: real
  clickCount :: nat
  clickTimer :: "real option"
  dragStartTime :: real
  isDragging :: bool
  isMiddleDragging :: bool
  lastPosition :: Point

record Interp =
  gestureState :: GestureState
  STATE :: InteractionState
  positionBuffer :: "Point list"

text \<open>What a call reads from the browser: \<^verbatim>\<open>performance.now()\<close>, the viewport and
  \<^verbatim>\<open>new Date().toLocaleTimeString()\<close>.\<close>

record Env =
  now :: real
  innerWidth :: real
  innerHeight :: real
  localeTime :: string

datatype error = TypeError

definition initialGestureState :: GestureState where
  "initialGestureState =
     \<lparr>cursor = \<lparr>cx = 0, cy = 0, active = False, mode = ModeNone\<rparr>,
      gestures = [],
      events = {},
      debugInfo = \<lparr>rootPos = \<lparr>px = 0, py = 0\<rparr>, handScale = 1, baseRoi = 0.8,
                   effectiveRoi = 0.8, landmarks = [], handedness = ''Unknown''\<rparr>\<rparr>"

definition initialSTATE :: InteractionState where
  "initialSTATE =
     \<lparr>lastPinchTime = 0, clickCount = 0, clickTimer = None, dragStartTime = 0,
      isDragging = False, isMiddleDragging = False, lastPosition = \<lparr>px = 0, py = 0\<rparr>\<rparr>"

definition initialInterp :: Interp where
  "initialInterp =
     \<lparr>gestureState = initialGestureState, STATE = initialSTATE, positionBuffer = []\<rparr>"

definition defaultConfig :: Config where
  "defaultConfig = \<lparr>hand = Both, smoothing = Balanced, roi = 0.8, videoSource = []\<rparr>"

section \<open>Helpers of \<^verbatim>\<open>handleResult\<close>\<close>

text \<open>JavaScript array indexing: \<^verbatim>\<open>xs[i]\<close> is \<^verbatim>\<open>undefined\<close> out of range.\<close>

definition elemAt :: "'a list \<Rightarrow> nat \<Rightarrow> 'a option" where
  "elemAt xs i = (if i < length xs then Some (xs ! i) else None)"

text \<open>\<^verbatim>\<open>Array.prototype.findIndex\<close>; \<open>None\<close> stands for \<^verbatim>\<open>-1\<close>.\<close>

fun findIndex :: "('a \<Rightarrow> bool) \<Rightarrow> 'a list \<Rightarrow> nat option" where
  "findIndex P [] = None"
| "findIndex P (a # as) =
     (if P a then Some 0
      else (case findIndex P as of None \<Rightarrow> None | Some i \<Rightarrow> Some (Suc i)))"

definition BUFFER_SIZE_MAP :: "SmoothingProfile \<Rightarrow> nat" where
  "BUFFER_SIZE_MAP p = (case p of Fast \<Rightarrow> 2 | Balanced \<Rightarrow> 5 | Smooth \<Rightarrow> 10)"

definition handName :: "HandPreference \<Rightarrow> string" where
  "handName p = (case p of Left \<Rightarrow> ''Left'' | Right \<Rightarrow> ''Right'' | Both \<Rightarrow> ''Both'')"

definition PINCH_THRESH :: real where
  "PINCH_THRESH = 0.05"

definition calculateDistance :: "Landmark option \<Rightarrow> Landmark option \<Rightarrow> real" where
  "calculateDistance p1 p2 =
     (case p1 of
        None \<Rightarrow> 1
      | Some a \<Rightarrow>
          (case p2 of
             None \<Rightarrow> 1
           | Some b \<Rightarrow> sqrt ((lx a - lx b)\<^sup>2 + (ly a - ly b)\<^sup>2)))"

text \<open>The inner function \<^verbatim>\<open>resetState\<close> (lines 243-249).\<close>

definition resetState :: "Interp \<Rightarrow> Interp" where
  "resetState s =
     s\<lparr>gestureState :=
         (gestureState s)
           \<lparr>cursor := (cursor (gestureState s))\<lparr>active := False\<rparr>,
            gestures := [],
            events := {IDLE},
            debugInfo := (debugInfo (gestureState s))\<lparr>landmarks := []\<rparr>\<rparr>\<rparr>"

text \<open>Hand filtering and selection (lines 257-279): the index of the target hand.\<close>

definition targetHandIndex :: "Config \<Rightarrow> GestureResult \<Rightarrow> nat option" where
  "targetHandIndex cfg r =
     (if hand cfg \<noteq> Both
      then findIndex
             (\<lambda>h. case h of [] \<Rightarrow> False | c # _ \<Rightarrow> categoryName c = handName (hand cfg))
             (res_handednesses r)
      else Some 0)"

text \<open>The hand \<^verbatim>\<open>handleResult\<close> goes on with, \<open>None\<close> on every path that ends in
  \<^verbatim>\<open>resetState(); return\<close> (lines 252-284).\<close>

definition selectedHand :: "Config \<Rightarrow> GestureResult \<Rightarrow> (nat \<times> Landmark list) option" where
  "selectedHand cfg r =
     (case res_landmarks r of
        None \<Rightarrow> None
      | Some hands \<Rightarrow>
          if length hands = 0 then None
          else (case targetHandIndex cfg r of
                  None \<Rightarrow> None
                | Some i \<Rightarrow> (case elemAt hands i of None \<Rightarrow> None | Some h \<Rightarrow> Some (i, h))))"

text \<open>Effective ROI (lines 311-317).\<close>

definition effectiveRoiOf :: "real \<Rightarrow> real \<Rightarrow> real" where
  "effectiveRoiOf base wristToMiddle =
     (let refSize = 0.10;
          distFactor = wristToMiddle / refSize;
          effRoi = base * min 1.2 (max 0.5 distFactor)
      in if effRoi > 1.0 then 1.0 else effRoi)"

text \<open>Cursor mapping (lines 335-350): mirror, affine map of the ROI square, clamp. For an
  effective ROI of 0 the division gives 0 here and no number in JavaScript; the effective
  ROI is positive whenever the base ROI is.\<close>

definition mapPoint :: "real \<Rightarrow> Landmark \<Rightarrow> Point" where
  "mapPoint effRoi indexTip =
     (let rawX = 1 - lx indexTip;
          rawY = ly indexTip;
          roiHalf = effRoi / 2;
          roiMinX = 0.5 - roiHalf;
          roiMinY = 0.5 - roiHalf;
          mappedX = (rawX - roiMinX) / effRoi;
          mappedY = (rawY - roiMinY) / effRoi
      in \<lparr>px = max 0 (min 1 mappedX), py = max 0 (min 1 mappedY)\<rparr>)"

text \<open>Smoothing buffer (lines 353-358): \<^verbatim>\<open>push\<close>, then one \<^verbatim>\<open>shift\<close> when the
  buffer is longer than the size of the profile.\<close>

definition bufferSizeOf :: "Config \<Rightarrow> nat" where
  "bufferSizeOf cfg =
     (if BUFFER_SIZE_MAP (smoothing cfg) = 0 then 5 else BUFFER_SIZE_MAP (smoothing cfg))"

definition pushPosition :: "nat \<Rightarrow> Point \<Rightarrow> Point list \<Rightarrow> Point list" where
  "pushPosition bufferSize p buf =
     (let pushed = buf @ [p]
      in if length pushed > bufferSize then tl pushed else pushed)"

definition avgX :: "Point list \<Rightarrow> real" where
  "avgX buf = foldl (\<lambda>sum p. sum + px p) 0 buf / real (length buf)"

definition avgY :: "Point list \<Rightarrow> real" where
  "avgY buf = foldl (\<lambda>sum p. sum + py p) 0 buf / real (length buf)"

text \<open>The gesture state machine (lines 378-447) on the pinch flags of the frame. It reads
  and writes \<^verbatim>\<open>STATE\<close> and \<^verbatim>\<open>cursor.mode\<close>, reads \<^verbatim>\<open>cursor.active\<close> and builds
  \<^verbatim>\<open>currentEvents\<close>. The three parts follow the three statements of the source.\<close>

type_synonym Machine = "InteractionState \<times> GestureMode \<times> GestureEvent set"

definition middleRelease :: "Machine \<Rightarrow> Machine" where
  "middleRelease m =
     (case m of (st, md, ev) \<Rightarrow>
        if isMiddleDragging st
        then (st\<lparr>isMiddleDragging := False\<rparr>, md, insert DRAG_MIDDLE_END ev)
        else (st, md, ev))"

definition indexPinch :: "real \<Rightarrow> Machine \<Rightarrow> Machine" where
  "indexPinch t m =
     (case m of (st, md, ev) \<Rightarrow>
        if \<not> isDragging st
        then (let st1 = (if dragStartTime st = 0 then st\<lparr>dragStartTime := t\<rparr> else st)
              in if t - dragStartTime st1 > 200
                 then (st1\<lparr>isDragging := True\<rparr>, md, insert DRAG_START ev)
                 else (st1, md, ev))
        else (st, ModeDrag, insert DRAG_MOVE ev))"

definition indexRelease :: "real \<Rightarrow> Machine \<Rightarrow> Machine" where
  "indexRelease t m =
     (case m of (st, md, ev) \<Rightarrow>
        if isDragging st
        then (st\<lparr>isDragging := False, dragStartTime := 0\<rparr>, ModeNone, insert DRAG_END ev)
        else if dragStartTime st > 0
        then (let st1 = st\<lparr>dragStartTime := 0, clickCount := clickCount st + 1\<rparr>
              in if clickCount st1 = 1
                 then (st1\<lparr>clickTimer := Some (t + 300)\<rparr>, ModeNone, insert CLICK ev)
                 else (st1\<lparr>clickTimer := None, clickCount := 0\<rparr>, ModeNone,
                       insert DOUBLE_CLICK ev))
        else (st, ModeNone, ev))"

definition stateMachine ::
  "real \<Rightarrow> bool \<Rightarrow> bool \<Rightarrow> bool \<Rightarrow> InteractionState \<Rightarrow> GestureMode \<Rightarrow> Machine" where
  "stateMachine t isPinch isMiddlePinch act st0 md0 =
     (let m1 =
            (if isMiddlePinch
             then (if \<not> isMiddleDragging st0
                   then (st0\<lparr>isMiddleDragging := True\<rparr>, ModeRotate, {DRAG_MIDDLE_START})
                   else (st0, ModeRotate, {DRAG_MIDDLE_MOVE}))
             else (let m = middleRelease (st0, md0, {})
                   in if isPinch then indexPinch t m else indexRelease t m))
      in case m1 of (st, md, ev) \<Rightarrow>
           if \<not> isPinch \<and> \<not> isMiddlePinch \<and> \<not> isDragging st \<and> \<not> isMiddleDragging st
           then (st, ModeNone, insert (if act then POINTER_MOVE else IDLE) ev)
           else (st, md, ev))"

text \<open>The pinch flags of a hand (lines 366-376).\<close>

definition isPinchOf :: "Landmark list \<Rightarrow> bool" where
  "isPinchOf h = (calculateDistance (elemAt h 8) (elemAt h 4) < PINCH_THRESH)"

definition isMiddlePinchOf :: "Landmark list \<Rightarrow> bool" where
  "isMiddlePinchOf h = (calculateDistance (elemAt h 12) (elemAt h 4) < PINCH_THRESH)"

text \<open>Lines 286-454, for the hand \<open>h\<close> at index \<open>i\<close>. Reading \<^verbatim>\<open>root.x\<close> or
  \<^verbatim>\<open>hand[9].x\<close> of a missing landmark throws a \<^verbatim>\<open>TypeError\<close>, before anything is written.\<close>

definition processHand ::
  "Config \<Rightarrow> Env \<Rightarrow> GestureResult \<Rightarrow> nat \<Rightarrow> Landmark list \<Rightarrow> Interp \<Rightarrow> error + Interp" where
  "processHand cfg env r i h s =
     (case elemAt h 0 of
        None \<Rightarrow> Inl TypeError
      | Some wrist \<Rightarrow>
          (case elemAt h 9 of
             None \<Rightarrow> Inl TypeError
           | Some mcp \<Rightarrow>
               (let handLabel =
                      (case elemAt (res_handednesses r) i of
                         Some (c # _) \<Rightarrow> categoryName c
                       | _ \<Rightarrow> ''Unknown'');
                    wristToMiddle = sqrt ((lx wrist - lx mcp)\<^sup>2 + (ly wrist - ly mcp)\<^sup>2);
                    effRoi = effectiveRoiOf (roi cfg) wristToMiddle;
                    newDebugInfo =
                      \<lparr>rootPos = \<lparr>px = lx wrist, py = ly wrist\<rparr>,
                       handScale = wristToMiddle,
                       baseRoi = roi cfg,
                       effectiveRoi = effRoi,
                       landmarks = h,
                       handedness = handLabel\<rparr>;
                    cur0 = cursor (gestureState s);
                    (buf, cur1) =
                      (case elemAt h 8 of
                         None \<Rightarrow> (positionBuffer s, cur0)
                       | Some indexTip \<Rightarrow>
                           (let b = pushPosition (bufferSizeOf cfg) (mapPoint effRoi indexTip)
                                      (positionBuffer s)
                            in (b, cur0\<lparr>cx := avgX b * innerWidth env,
                                        cy := avgY b * innerHeight env,
                                        active := True\<rparr>)));
                    (st, md, currentEvents) =
                      stateMachine (now env) (isPinchOf h) (isMiddlePinchOf h) (active cur1)
                        (STATE s) (mode cur1);
                    gestureName =
                      (case elemAt (res_gestures r) i of
                         Some (c # _) \<Rightarrow> categoryName c
                       | _ \<Rightarrow> ''None'')
                in Inr \<lparr>gestureState =
                          \<lparr>cursor = cur1\<lparr>mode := md\<rparr>,
                           gestures = [gestureName],
                           events = currentEvents,
                           debugInfo = newDebugInfo\<rparr>,
                        STATE = st,
                        positionBuffer = buf\<rparr>)))"

text \<open>\<^verbatim>\<open>handleResult\<close> (lines 238-459): \<open>Inl\<close> is an exception thrown out of the call.\<close>

definition handleResult ::
  "Config \<Rightarrow> Env \<Rightarrow> GestureResult option \<Rightarrow> Interp \<Rightarrow> error + Interp" where
  "handleResult cfg env result s =
     (case result of
        None \<Rightarrow> Inr s
      | Some r \<Rightarrow>
          (case selectedHand cfg r of
             None \<Rightarrow> Inr (resetState s)
           | Some (i, h) \<Rightarrow> processHand cfg env r i h s))"

section \<open>The click timer and sequences of replies\<close>

text \<open>The callback given to \<^verbatim>\<open>setTimeout\<close> (lines 424-431) resets the click counter.\<close>

definition clickTimeout :: "Interp \<Rightarrow> Interp" where
  "clickTimeout s = s\<lparr>STATE := (STATE s)\<lparr>clickCount := 0, clickTimer := None\<rparr>\<rparr>"

text \<open>The event loop before a reply is handled at time \<open>t\<close>: a pending callback runs
  once its 300ms have passed.\<close>

definition runTimers :: "real \<Rightarrow> Interp \<Rightarrow> Interp" where
  "runTimers t s =
     (case clickTimer (STATE s) of
        None \<Rightarrow> s
      | Some due \<Rightarrow> if due \<le> t then clickTimeout s else s)"

text \<open>Consecutive replies, each with the environment of its call; the result is the list
  of the interpreter states after each call, or the first exception.\<close>

fun run :: "Config \<Rightarrow> (Env \<times> GestureResult option) list \<Rightarrow> Interp \<Rightarrow> error + Interp list" where
  "run cfg [] s = Inr []"
| "run cfg (f # fs) s =
     (case handleResult cfg (fst f) (snd f) (runTimers (now (fst f)) s) of
        Inl e \<Rightarrow> Inl e
      | Inr s' \<Rightarrow> (case run cfg fs s' of Inl e \<Rightarrow> Inl e | Inr ss \<Rightarrow> Inr (s' # ss)))"

definition eventsOf :: "Interp \<Rightarrow> GestureEvent set" where
  "eventsOf s = events (gestureState s)"

definition modeOf :: "Interp \<Rightarrow> GestureMode" where
  "modeOf s = mode (cursor (gestureState s))"

text \<open>What a consumer sees of the calls of a run: the events, the mode and the drag flag
  after each call (nothing when a call threw).\<close>

definition traceOf :: "error + Interp list \<Rightarrow> (GestureEvent set \<times> GestureMode \<times> bool) list" where
  "traceOf res =
     (case res of
        Inl e \<Rightarrow> []
      | Inr ss \<Rightarrow> map (\<lambda>s. (eventsOf s, modeOf s, isDragging (STATE s))) ss)"

text \<open>A reply whose selected hand has the 21 landmarks and the given pinch flags.\<close>

definition pinchFrame :: "Config \<Rightarrow> GestureResult option \<Rightarrow> bool \<Rightarrow> bool \<Rightarrow> bool" where
  "pinchFrame cfg res ip mp =
     (case res of
        None \<Rightarrow> False
      | Some r \<Rightarrow>
          (case selectedHand cfg r of
             None \<Rightarrow> False
           | Some (i, h) \<Rightarrow> length h = 21 \<and> isPinchOf h = ip \<and> isMiddlePinchOf h = mp))"

definition holdFrame :: "Config \<Rightarrow> GestureResult option \<Rightarrow> bool" where
  "holdFrame cfg res = pinchFrame cfg res True False"

definition releaseFrame :: "Config \<Rightarrow> GestureResult option \<Rightarrow> bool" where
  "releaseFrame cfg res = pinchFrame cfg res False False"

text \<open>A reply whose selected hand shows both pinches.\<close>

definition bothPinchFrame :: "Config \<Rightarrow> GestureResult option \<Rightarrow> bool" where
  "bothPinchFrame cfg res =
     (case res of
        None \<Rightarrow> False
      | Some r \<Rightarrow>
          (case selectedHand cfg r of
             None \<Rightarrow> False
           | Some (i, h) \<Rightarrow> isPinchOf h \<and> isMiddlePinchOf h))"

text \<open>The groups of event flags written by the three parts of the state machine.\<close>

definition indexEvents :: "GestureEvent set" where
  "indexEvents = {CLICK, DOUBLE_CLICK, DRAG_START, DRAG_MOVE, DRAG_END}"

definition middleEvents :: "GestureEvent set" where
  "middleEvents = {DRAG_MIDDLE_START, DRAG_MIDDLE_MOVE, DRAG_MIDDLE_END}"

definition pointerEvents :: "GestureEvent set" where
  "pointerEvents = {IDLE, POINTER_MOVE}"

section \<open>Camera, worker replies and the log\<close>

datatype LogType = info | error | success | warning

record LogEntry =
  timestamp :: string
  message :: string
  logType :: LogType

datatype WorkerMessage =
    InitSuccess "string option"
  | InitError string
  | Result "GestureResult option"

text \<open>The refs of \<^verbatim>\<open>useGesture\<close> that the camera and the worker callback touch. The
  video element and its media stream are outside the model.\<close>

record System =
  isCameraActive :: bool
  isWorkerReady :: bool
  isBusyRef :: bool
  requestRef :: "nat option"
  fps :: nat
  frameCount :: nat
  lastFpsTime :: real
  activeDelegate :: string
  logs :: "LogEntry list"
  interp :: Interp

definition addLog :: "Env \<Rightarrow> string \<Rightarrow> LogType \<Rightarrow> System \<Rightarrow> System" where
  "addLog env msg ty sys =
     sys\<lparr>logs := take 50 (\<lparr>timestamp = localeTime env, message = msg, logType = ty\<rparr> # logs sys)\<rparr>"

definition updateFps :: "Env \<Rightarrow> System \<Rightarrow> System" where
  "updateFps env sys =
     (let sys1 = sys\<lparr>frameCount := frameCount sys + 1\<rparr>
      in if now env - lastFpsTime sys1 \<ge> 1000
         then sys1\<lparr>fps := frameCount sys1, frameCount := 0, lastFpsTime := now env\<rparr>
         else sys1)"


text \<open>\<^verbatim>\<open>worker.onmessage\<close> (lines 173-189). An exception of \<^verbatim>\<open>handleResult\<close> leaves
  the callback before the busy flag is cleared.\<close>

definition onmessage :: "Config \<Rightarrow> Env \<Rightarrow> WorkerMessage \<Rightarrow> System \<Rightarrow> error + System" where
  "onmessage cfg env msg sys =
     (case msg of
        InitSuccess d \<Rightarrow>
          (let usedDelegate = (case d of None \<Rightarrow> ''CPU'' | Some n \<Rightarrow> if n = [] then ''CPU'' else n)
           in Inr (addLog env (''Initialized ('' @ usedDelegate @ '').'') success
                     (sys\<lparr>isWorkerReady := True, activeDelegate := usedDelegate,
                          isBusyRef := False\<rparr>)))
      | InitError e \<Rightarrow>
          Inr ((addLog env (''Init Failed: '' @ e) error sys)\<lparr>isBusyRef := False\<rparr>)
      | Result r \<Rightarrow>
          (case handleResult cfg env r (interp sys) of
             Inl e \<Rightarrow> Inl e
           | Inr i \<Rightarrow> Inr (updateFps env (sys\<lparr>interp := i, isBusyRef := False\<rparr>))))"

definition initialSystem :: System where
  "initialSystem =
     \<lparr>isCameraActive = False, isWorkerReady = False, isBusyRef = False, requestRef = None,
      fps = 0, frameCount = 0, lastFpsTime = 0, activeDelegate = ''Unknown'', logs = [],
      interp = initialInterp\<rparr>"

section \<open>Sample inputs\<close>

definition envAt :: "real \<Rightarrow> Env" where
  "envAt t = \<lparr>now = t, innerWidth = 1920, innerHeight = 1080, localeTime = ''12:00:00''\<rparr>"

definition lm :: "real \<Rightarrow> real \<Rightarrow> Landmark" where
  "lm a b = \<lparr>lx = a, ly = b, lz = 0\<rparr>"

text \<open>A hand of 21 landmarks with the wrist at \<open>(0.5, 0.6)\<close>, the middle-finger MCP at
  \<open>(0.5, 0.5)\<close> and the given thumb, index and middle tips (indices 4, 8, 12).\<close>

definition handOf :: "Landmark \<Rightarrow> Landmark \<Rightarrow> Landmark \<Rightarrow> Landmark list" where
  "handOf thumbTip indexTip middleTip =
     [lm 0.5 0.6, lm 0.5 0.6, lm 0.5 0.6, lm 0.5 0.6, thumbTip,
      lm 0.5 0.6, lm 0.5 0.6, lm 0.5 0.6, indexTip,
      lm 0.5 0.5, lm 0.5 0.6, lm 0.5 0.6, middleTip,
      lm 0.5 0.6, lm 0.5 0.6, lm 0.5 0.6, lm 0.5 0.6,
      lm 0.5 0.6, lm 0.5 0.6, lm 0.5 0.6, lm 0.5 0.6]"

definition openHand :: "Landmark list" where
  "openHand = handOf (lm 0.5 0.8) (lm 0.5 0.5) (lm 0.5 0.4)"

definition pinchHand :: "Landmark list" where
  "pinchHand = handOf (lm 0.5 0.5) (lm 0.5 0.5) (lm 0.5 0.4)"

definition bothPinchHand :: "Landmark list" where
  "bothPinchHand = handOf (lm 0.5 0.5) (lm 0.5 0.5) (lm 0.5 0.5)"

definition resultOf :: "Landmark list \<Rightarrow> GestureResult" where
  "resultOf h =
     \<lparr>res_landmarks = Some [h],
      res_gestures = [[\<lparr>score = 1, categoryName = ''None''\<rparr>]],
      res_handednesses = [[\<lparr>score = 1, categoryName = ''Right''\<rparr>]]\<rparr>"

definition frameOf :: "Landmark list \<Rightarrow> GestureResult option" where
  "frameOf h = Some (resultOf h)"

definition noHands :: GestureResult where
  "noHands = \<lparr>res_landmarks = Some [], res_gestures = [], res_handednesses = []\<rparr>"

text \<open>Interpreter states met on the way: after one open hand (\<open>trackedInterp\<close>), after a
  first pinched reply at time 1000 (\<open>holdingInterp\<close>), after a second one at time 1300
  (\<open>draggingInterp\<close>), and after an open hand at time 1100 that ends the pinch of
  \<open>holdingInterp\<close> (\<open>clickedInterp\<close>).\<close>

definition centre :: Point where
  "centre = \<lparr>px = 0.5, py = 0.5\<rparr>"

definition sampleState :: "Landmark list \<Rightarrow> GestureEvent set \<Rightarrow> GestureState" where
  "sampleState h ev =
     \<lparr>cursor = \<lparr>cx = 960, cy = 540, active = True, mode = ModeNone\<rparr>,
      gestures = [''None''],
      events = ev,
      debugInfo = \<lparr>rootPos = \<lparr>px = 0.5, py = 0.6\<rparr>, handScale = 0.1, baseRoi = 0.8,
                   effectiveRoi = 0.8, landmarks = h, handedness = ''Right''\<rparr>\<rparr>"

definition trackedInterp :: Interp where
  "trackedInterp =
     \<lparr>gestureState = sampleState openHand {POINTER_MOVE}, STATE = initialSTATE,
      positionBuffer = [centre]\<rparr>"

definition holdingInterp :: Interp where
  "holdingInterp =
     \<lparr>gestureState = sampleState pinchHand {},
      STATE = initialSTATE\<lparr>dragStartTime := 1000\<rparr>,
      positionBuffer = [centre]\<rparr>"

definition draggingInterp :: Interp where
  "draggingInterp =
     \<lparr>gestureState = sampleState pinchHand {DRAG_START},
      STATE = initialSTATE\<lparr>dragStartTime := 1000, isDragging := True\<rparr>,
      positionBuffer = [centre, centre]\<rparr>"

definition clickedInterp :: Interp where
  "clickedInterp =
     \<lparr>gestureState = sampleState openHand {CLICK, POINTER_MOVE},
      STATE = initialSTATE\<lparr>clickCount := 1, clickTimer := Some 1400\<rparr>,
      positionBuffer = [centre, centre]\<rparr>"

text \<open>A hand whose index tip is higher up: its mapped position is \<open>(0.5, 0.25)\<close>.\<close>

definition raisedHand :: "Landmark list" where
  "raisedHand = handOf (lm 0.5 0.8) (lm 0.5 0.3) (lm 0.5 0.4)"

definition smoothConfig :: Config where
  "smoothConfig = defaultConfig\<lparr>smoothing := Smooth\<rparr>"

definition fastConfig :: Config where
  "fastConfig = defaultConfig\<lparr>smoothing := Fast\<rparr>"

text \<open>The interpreter state while an open hand is tracked, with the given buffer.\<close>

definition filledInterp :: "Point list \<Rightarrow> Interp" where
  "filledInterp buf =
     \<lparr>gestureState = sampleState openHand {POINTER_MOVE}, STATE = initialSTATE,
      positionBuffer = buf\<rparr>"

text \<open>The smoothing seen from outside: after each call of a run, the length of the buffer
  and the cursor position in pixels.\<close>

definition cursorTrace :: "error + Interp list \<Rightarrow> (nat \<times> real \<times> real) list" where
  "cursorTrace res =
     (case res of
        Inl e \<Rightarrow> []
      | Inr ss \<Rightarrow>
          map (\<lambda>s. (length (positionBuffer s), cx (cursor (gestureState s)),
                     cy (cursor (gestureState s)))) ss)"

text \<open>A hand cut after its ninth landmark: the indices 0, 4 and 8 are there, 9 and 12
  are missing.\<close>

definition shortHand :: "Landmark list" where
  "shortHand = take 9 openHand"

text \<open>The refs while the camera runs and a frame is in flight, and after the camera was
  stopped at time 1990 and the reply to that frame arrived at time 2000.\<close>

definition runningSystem :: System where
  "runningSystem =
     initialSystem\<lparr>isCameraActive := True, isWorkerReady := True, isBusyRef := True,
                   requestRef := Some 1\<rparr>"


section \<open>Basic facts about one call\<close>

lemma effectiveRoiOf_min: "effectiveRoiOf b d = min 1 (b * min 1.2 (max 0.5 (d / 0.10)))"
proof -
  have "(if e > 1.0 then 1.0 else e) = min 1 e" for e :: real
    by (simp add: min_def)
  then show ?thesis
    by (simp only: effectiveRoiOf_def Let_def)
qed

lemma effectiveRoiOf_mono:
  assumes "0 \<le> b" and "d \<le> d'"
  shows "effectiveRoiOf b d \<le> effectiveRoiOf b d'"
proof -
  have "d / 0.10 \<le> d' / 0.10"
    using assms(2) by (simp add: divide_right_mono)
  then have "min 1.2 (max 0.5 (d / 0.10)) \<le> min (1.2::real) (max 0.5 (d' / 0.10))"
    by (intro min.mono max.mono order_refl)
  then have "b * min 1.2 (max 0.5 (d / 0.10)) \<le> b * min 1.2 (max 0.5 (d' / 0.10))"
    using assms(1) by (rule mult_left_mono)
  then show ?thesis
    unfolding effectiveRoiOf_min by (intro min.mono order_refl)
qed

lemma effectiveRoiOf_low:
  assumes "b \<le> 1" and "d \<le> 0.05"
  shows "effectiveRoiOf b d = 0.5 * b"
proof -
  have "max 0.5 (d / 0.10) = 0.5"
    using assms(2) by (simp add: max_def)
  then have "min 1.2 (max 0.5 (d / 0.10)) = (0.5::real)"
    by simp
  then have "effectiveRoiOf b d = min 1 (b * 0.5)"
    unfolding effectiveRoiOf_min by (simp only:)
  then show ?thesis
    using assms(1) by (simp add: min_def)
qed

lemma effectiveRoiOf_high:
  assumes "0.12 \<le> d"
  shows "effectiveRoiOf b d = min (1.2 * b) 1"
proof -
  have "max 0.5 (d / 0.10) \<ge> 1.2"
    using assms by (simp add: max_def)
  then have "min 1.2 (max 0.5 (d / 0.10)) = (1.2::real)"
    by (simp only: min_def split: if_splits) simp
  then show ?thesis
    unfolding effectiveRoiOf_min by (simp add: min.commute mult.commute)
qed

lemma effectiveRoiOf_pos:
  assumes "0 < b"
  shows "0 < effectiveRoiOf b d"
proof -
  have "(0::real) < min 1.2 (max 0.5 (d / 0.10))"
    by (simp add: min_def max_def)
  with assms have "0 < b * min 1.2 (max 0.5 (d / 0.10))"
    by (rule mult_pos_pos)
  then show ?thesis
    unfolding effectiveRoiOf_min by simp
qed

text \<open>A hand with at least ten landmarks has a wrist, an index tip and a middle-finger
  MCP: the call returns, and every field of the new state is an explicit expression.\<close>

lemma processHand_tip:
  assumes "9 < length h"
  shows "processHand cfg env r i h s =
     Inr \<lparr>gestureState =
            \<lparr>cursor =
               \<lparr>cx = avgX (pushPosition (bufferSizeOf cfg)
                        (mapPoint (effectiveRoiOf (roi cfg)
                           (sqrt ((lx (h ! 0) - lx (h ! 9))\<^sup>2 + (ly (h ! 0) - ly (h ! 9))\<^sup>2)))
                           (h ! 8))
                        (positionBuffer s)) * innerWidth env,
                cy = avgY (pushPosition (bufferSizeOf cfg)
                        (mapPoint (effectiveRoiOf (roi cfg)
                           (sqrt ((lx (h ! 0) - lx (h ! 9))\<^sup>2 + (ly (h ! 0) - ly (h ! 9))\<^sup>2)))
                           (h ! 8))
                        (positionBuffer s)) * innerHeight env,
                active = True,
                mode = fst (snd (stateMachine (now env) (isPinchOf h) (isMiddlePinchOf h) True
                         (STATE s) (modeOf s)))\<rparr>,
             gestures = [case elemAt (res_gestures r) i of
                           Some (c # _) \<Rightarrow> categoryName c | _ \<Rightarrow> ''None''],
             events = snd (snd (stateMachine (now env) (isPinchOf h) (isMiddlePinchOf h) True
                         (STATE s) (modeOf s))),
             debugInfo =
               \<lparr>rootPos = \<lparr>px = lx (h ! 0), py = ly (h ! 0)\<rparr>,
                handScale = sqrt ((lx (h ! 0) - lx (h ! 9))\<^sup>2 + (ly (h ! 0) - ly (h ! 9))\<^sup>2),
                baseRoi = roi cfg,
                effectiveRoi = effectiveRoiOf (roi cfg)
                   (sqrt ((lx (h ! 0) - lx (h ! 9))\<^sup>2 + (ly (h ! 0) - ly (h ! 9))\<^sup>2)),
                landmarks = h,
                handedness = (case elemAt (res_handednesses r) i of
                                Some (c # _) \<Rightarrow> categoryName c | _ \<Rightarrow> ''Unknown'')\<rparr>\<rparr>,
          STATE = fst (stateMachine (now env) (isPinchOf h) (isMiddlePinchOf h) True
                         (STATE s) (modeOf s)),
          positionBuffer = pushPosition (bufferSizeOf cfg)
                        (mapPoint (effectiveRoiOf (roi cfg)
                           (sqrt ((lx (h ! 0) - lx (h ! 9))\<^sup>2 + (ly (h ! 0) - ly (h ! 9))\<^sup>2)))
                           (h ! 8))
                        (positionBuffer s)\<rparr>"
proof -
  have e: "elemAt h 0 = Some (h ! 0)" "elemAt h 8 = Some (h ! 8)" "elemAt h 9 = Some (h ! 9)"
    using assms by (auto simp add: elemAt_def)
  show ?thesis
    by (simp add: processHand_def e Let_def modeOf_def split: prod.splits)
qed

lemma handleResult_selected:
  assumes "selectedHand cfg r = Some (i, h)"
  shows "handleResult cfg env (Some r) s = processHand cfg env r i h s"
  using assms by (simp add: handleResult_def)

lemma handleResult_reset:
  assumes "selectedHand cfg r = None"
  shows "handleResult cfg env (Some r) s = Inr (resetState s)"
  using assms by (simp add: handleResult_def)

lemma selectedHand_no_hands:
  assumes "res_landmarks r = None \<or> res_landmarks r = Some []"
  shows "selectedHand cfg r = None"
  using assms by (auto simp add: selectedHand_def)

subsection \<open>The sample inputs\<close>

lemma selectedHand_resultOf: "selectedHand defaultConfig (resultOf h) = Some (0, h)"
  by (simp add: selectedHand_def resultOf_def targetHandIndex_def defaultConfig_def elemAt_def)

lemma length_sample_hands:
  "length openHand = 21" "length pinchHand = 21" "length bothPinchHand = 21"
  by (simp_all add: openHand_def pinchHand_def bothPinchHand_def handOf_def)

lemma pinches_openHand: "\<not> isPinchOf openHand" "\<not> isMiddlePinchOf openHand"
  by (simp_all add: isPinchOf_def isMiddlePinchOf_def openHand_def handOf_def elemAt_def
      calculateDistance_def lm_def PINCH_THRESH_def)

lemma pinches_pinchHand: "isPinchOf pinchHand" "\<not> isMiddlePinchOf pinchHand"
  by (simp_all add: isPinchOf_def isMiddlePinchOf_def pinchHand_def handOf_def elemAt_def
      calculateDistance_def lm_def PINCH_THRESH_def)

lemma pinches_bothPinchHand: "isPinchOf bothPinchHand" "isMiddlePinchOf bothPinchHand"
  by (simp_all add: isPinchOf_def isMiddlePinchOf_def bothPinchHand_def handOf_def elemAt_def
      calculateDistance_def lm_def PINCH_THRESH_def)

lemma handScale_openHand:
  "sqrt ((lx (openHand ! 0) - lx (openHand ! 9))\<^sup>2 + (ly (openHand ! 0) - ly (openHand ! 9))\<^sup>2)
     = 0.1"
  by (simp add: openHand_def handOf_def lm_def)

lemmas sample_defs =
  resultOf_def frameOf_def noHands_def openHand_def pinchHand_def bothPinchHand_def handOf_def
  lm_def envAt_def defaultConfig_def initialInterp_def initialGestureState_def initialSTATE_def
  centre_def sampleState_def trackedInterp_def holdingInterp_def draggingInterp_def
  clickedInterp_def shortHand_def raisedHand_def smoothConfig_def fastConfig_def
  filledInterp_def

lemmas model_defs =
  handleResult_def selectedHand_def targetHandIndex_def processHand_def elemAt_def
  effectiveRoiOf_def mapPoint_def bufferSizeOf_def BUFFER_SIZE_MAP_def pushPosition_def
  avgX_def avgY_def isPinchOf_def isMiddlePinchOf_def calculateDistance_def PINCH_THRESH_def
  stateMachine_def middleRelease_def indexPinch_def indexRelease_def resetState_def
  handName_def Let_def

section \<open>Effective region of interest\<close>

text \<open>
  Claim C8. For every base ROI in \<open>(0, 1]\<close> the effective ROI that \<^verbatim>\<open>handleResult\<close>
  reports is \<open>baseROI * clamp (scale / 0.10) 0.5 1.2\<close> capped at 1, where \<open>scale\<close> is the
  wrist to middle-MCP distance it reports as hand scale; as a function of the scale it is
  monotonically non-decreasing, equal to \<open>0.5 * baseROI\<close> for scales up to 0.05 and to
  \<open>min (1.2 * baseROI) 1\<close> for scales from 0.12 on. Numbers are real numbers here.
\<close>

theorem effectiveRoi_clamp_monotone:
  assumes "0 < roi cfg" and "roi cfg \<le> 1"
    and "selectedHand cfg r = Some (i, h)" and "9 < length h"
  shows "(\<exists>s'. handleResult cfg env (Some r) s = Inr s' \<and>
            handScale (debugInfo (gestureState s')) =
              sqrt ((lx (h ! 0) - lx (h ! 9))\<^sup>2 + (ly (h ! 0) - ly (h ! 9))\<^sup>2) \<and>
            effectiveRoi (debugInfo (gestureState s')) =
              min 1 (roi cfg *
                min 1.2 (max 0.5 (handScale (debugInfo (gestureState s')) / 0.10)))) \<and>
         effectiveRoiOf (roi cfg) d = min 1 (roi cfg * min 1.2 (max 0.5 (d / 0.10))) \<and>
         (d \<le> d' \<longrightarrow> effectiveRoiOf (roi cfg) d \<le> effectiveRoiOf (roi cfg) d') \<and>
         (d \<le> 0.05 \<longrightarrow> effectiveRoiOf (roi cfg) d = 0.5 * roi cfg) \<and>
         (0.12 \<le> d \<longrightarrow> effectiveRoiOf (roi cfg) d = min (1.2 * roi cfg) 1)"
proof -
  have "handleResult cfg env (Some r) s = processHand cfg env r i h s"
    using assms(3) by (rule handleResult_selected)
  then have call: "\<exists>s'. handleResult cfg env (Some r) s = Inr s' \<and>
            handScale (debugInfo (gestureState s')) =
              sqrt ((lx (h ! 0) - lx (h ! 9))\<^sup>2 + (ly (h ! 0) - ly (h ! 9))\<^sup>2) \<and>
            effectiveRoi (debugInfo (gestureState s')) =
              min 1 (roi cfg *
                min 1.2 (max 0.5 (handScale (debugInfo (gestureState s')) / 0.10)))"
    by (simp add: processHand_tip [OF assms(4)] effectiveRoiOf_min)
  have mono: "d \<le> d' \<longrightarrow> effectiveRoiOf (roi cfg) d \<le> effectiveRoiOf (roi cfg) d'"
    using assms(1) by (simp add: effectiveRoiOf_mono)
  have low: "d \<le> 0.05 \<longrightarrow> effectiveRoiOf (roi cfg) d = 0.5 * roi cfg"
    using assms(2) effectiveRoiOf_low [of "roi cfg" d] by blast
  have high: "0.12 \<le> d \<longrightarrow> effectiveRoiOf (roi cfg) d = min (1.2 * roi cfg) 1"
    using effectiveRoiOf_high [of d "roi cfg"] by blast
  from call mono low high show ?thesis
    using effectiveRoiOf_min [of "roi cfg" d] by blast
qed

theorem effectiveRoi_clamp_monotone_witness:
  "(\<exists>s'. handleResult defaultConfig (envAt 0) (Some (resultOf openHand)) initialInterp = Inr s' \<and>
      handScale (debugInfo (gestureState s')) = 0.1 \<and>
      effectiveRoi (debugInfo (gestureState s')) = 0.8) \<and>
   effectiveRoiOf 0.8 0.03 \<le> effectiveRoiOf 0.8 0.2 \<and>
   effectiveRoiOf 0.8 0.03 = 0.4"
proof -
  have r: "0 < roi defaultConfig" "roi defaultConfig \<le> 1"
    by (simp_all add: defaultConfig_def)
  have len: "9 < length openHand"
    by (simp add: length_sample_hands)
  have v: "roi defaultConfig = 0.8"
    by (simp add: defaultConfig_def)
  show ?thesis
    using effectiveRoi_clamp_monotone [OF r selectedHand_resultOf len,
        of "envAt 0" initialInterp "0.03" "0.2"]
    by (auto simp add: handScale_openHand v)
qed

section \<open>Null replies and replies without hands\<close>

text \<open>
  Claim C1, as stated: a null detection result resets the interpreter to the idle state.
  It does not: \<^verbatim>\<open>if (!result) return\<close> leaves before \<^verbatim>\<open>resetState\<close> exists, so after an
  open hand was tracked a null reply leaves the cursor active and the events unchanged.
\<close>

theorem null_result_counterexample:
  "handleResult defaultConfig (envAt 0) (frameOf openHand) initialInterp = Inr trackedInterp \<and>
   handleResult defaultConfig (envAt 16) None trackedInterp = Inr trackedInterp \<and>
   active (cursor (gestureState trackedInterp)) \<and>
   events (gestureState trackedInterp) = {POINTER_MOVE}"
  by (simp add: model_defs sample_defs)

text \<open>
  Claim C1, amended. A result that contains zero hands (its landmark array is missing or
  empty) resets the interpreter to the idle state: the cursor is inactive, the events are
  \<open>{IDLE}\<close>, the debug landmarks and the gesture labels are empty. A null result is
  ignored: the call returns the state it was given.
\<close>

theorem no_hands_reset:
  assumes "res_landmarks r = None \<or> res_landmarks r = Some []"
  shows "\<exists>s'. handleResult cfg env (Some r) s = Inr s' \<and>
           \<not> active (cursor (gestureState s')) \<and>
           events (gestureState s') = {IDLE} \<and>
           landmarks (debugInfo (gestureState s')) = [] \<and>
           gestures (gestureState s') = [] \<and>
           handleResult cfg env None s = Inr s"
proof -
  have "handleResult cfg env (Some r) s = Inr (resetState s)"
    using assms by (intro handleResult_reset selectedHand_no_hands)
  then show ?thesis
    by (simp add: resetState_def handleResult_def)
qed

theorem no_hands_reset_witness:
  "\<exists>s'. handleResult defaultConfig (envAt 16) (Some noHands) trackedInterp = Inr s' \<and>
      \<not> active (cursor (gestureState s')) \<and>
      events (gestureState s') = {IDLE} \<and>
      landmarks (debugInfo (gestureState s')) = [] \<and>
      gestures (gestureState s') = [] \<and>
      handleResult defaultConfig (envAt 16) None trackedInterp = Inr trackedInterp"
proof -
  have "res_landmarks noHands = None \<or> res_landmarks noHands = Some []"
    by (simp add: noHands_def)
  then show ?thesis
    by (rule no_hands_reset)
qed

section \<open>What the reset path leaves alone\<close>

lemma bufferSizeOf_pos: "0 < bufferSizeOf cfg"
  by (simp add: bufferSizeOf_def)

lemma pushPosition_nonempty: "0 < n \<Longrightarrow> pushPosition n p buf \<noteq> []"
proof (cases buf)
  case Nil
  then show "0 < n \<Longrightarrow> ?thesis" by (simp add: pushPosition_def)
next
  case (Cons a as)
  then show ?thesis by (simp add: pushPosition_def Let_def)
qed

text \<open>
  Claim C3, as stated: when the hand is lost the smoothing buffer and the drag flags are
  cleared. They are not: two pinched replies 300ms apart start a drag, and the reply
  without hands that follows resets the gesture state only. The buffer keeps its two
  samples, \<open>isDragging\<close> stays set and the hold timer keeps its start time.
\<close>

theorem hand_loss_counterexample:
  "run defaultConfig
     [(envAt 1000, frameOf pinchHand), (envAt 1300, frameOf pinchHand), (envAt 1316, Some noHands)]
     initialInterp
     = Inr [holdingInterp, draggingInterp, resetState draggingInterp] \<and>
   \<not> active (cursor (gestureState (resetState draggingInterp))) \<and>
   positionBuffer (resetState draggingInterp) = [centre, centre] \<and>
   isDragging (STATE (resetState draggingInterp)) \<and>
   dragStartTime (STATE (resetState draggingInterp)) = 1000"
  by (simp add: model_defs sample_defs runTimers_def)

text \<open>
  Claim C3, amended. A call that takes the reset path (no hand is selected) changes the
  gesture state only: the smoothing buffer and the whole of \<^verbatim>\<open>STATE\<close> (drag flags, hold
  timer, click counter) are what they were. A call with a selected hand of at least ten
  landmarks does not clear the buffer either: the new buffer is the old one with the
  mapped position of the index tip appended, less its oldest entry when that is longer
  than the size of the profile, so it is never empty.
\<close>

theorem reset_keeps_interaction_state:
  "(selectedHand cfg r = None \<longrightarrow>
      (\<exists>s'. handleResult cfg env (Some r) s = Inr s' \<and>
         positionBuffer s' = positionBuffer s \<and> STATE s' = STATE s \<and>
         \<not> active (cursor (gestureState s')) \<and> events (gestureState s') = {IDLE} \<and>
         gestures (gestureState s') = [] \<and> landmarks (debugInfo (gestureState s')) = [])) \<and>
   (selectedHand cfg r = Some (i, h) \<and> 9 < length h \<longrightarrow>
      (\<exists>s'. handleResult cfg env (Some r) s = Inr s' \<and>
         positionBuffer s' =
           (if length (positionBuffer s) < bufferSizeOf cfg
            then positionBuffer s @ [mapPoint (effectiveRoi (debugInfo (gestureState s'))) (h ! 8)]
            else tl (positionBuffer s @
                   [mapPoint (effectiveRoi (debugInfo (gestureState s'))) (h ! 8)])) \<and>
         positionBuffer s' \<noteq> []))"
proof (intro conjI impI)
  assume "selectedHand cfg r = None"
  then have "handleResult cfg env (Some r) s = Inr (resetState s)"
    by (rule handleResult_reset)
  then show "\<exists>s'. handleResult cfg env (Some r) s = Inr s' \<and>
         positionBuffer s' = positionBuffer s \<and> STATE s' = STATE s \<and>
         \<not> active (cursor (gestureState s')) \<and> events (gestureState s') = {IDLE} \<and>
         gestures (gestureState s') = [] \<and> landmarks (debugInfo (gestureState s')) = []"
    by (simp add: resetState_def)
next
  assume a: "selectedHand cfg r = Some (i, h) \<and> 9 < length h"
  define p where "p = mapPoint (effectiveRoiOf (roi cfg)
      (sqrt ((lx (h ! 0) - lx (h ! 9))\<^sup>2 + (ly (h ! 0) - ly (h ! 9))\<^sup>2))) (h ! 8)"
  from a have "handleResult cfg env (Some r) s = processHand cfg env r i h s"
    by (simp add: handleResult_selected)
  then obtain s' where call: "handleResult cfg env (Some r) s = Inr s'"
    and buf: "positionBuffer s' = pushPosition (bufferSizeOf cfg) p (positionBuffer s)"
    and eff: "mapPoint (effectiveRoi (debugInfo (gestureState s'))) (h ! 8) = p"
    using a by (simp add: processHand_tip p_def)
  have "pushPosition (bufferSizeOf cfg) p (positionBuffer s) =
      (if length (positionBuffer s) < bufferSizeOf cfg then positionBuffer s @ [p]
       else tl (positionBuffer s @ [p]))"
    by (auto simp add: pushPosition_def Let_def)
  with call buf eff show "\<exists>s'. handleResult cfg env (Some r) s = Inr s' \<and>
         positionBuffer s' =
           (if length (positionBuffer s) < bufferSizeOf cfg
            then positionBuffer s @ [mapPoint (effectiveRoi (debugInfo (gestureState s'))) (h ! 8)]
            else tl (positionBuffer s @
                   [mapPoint (effectiveRoi (debugInfo (gestureState s'))) (h ! 8)])) \<and>
         positionBuffer s' \<noteq> []"
    using pushPosition_nonempty [OF bufferSizeOf_pos, of cfg p "positionBuffer s"] by metis
qed

theorem reset_keeps_interaction_state_witness:
  "(\<exists>s'. handleResult defaultConfig (envAt 1316) (Some noHands) draggingInterp = Inr s' \<and>
      positionBuffer s' = [centre, centre] \<and> STATE s' = STATE draggingInterp \<and>
      \<not> active (cursor (gestureState s')) \<and> events (gestureState s') = {IDLE} \<and>
         gestures (gestureState s') = [] \<and> landmarks (debugInfo (gestureState s')) = []) \<and>
   (\<exists>s' p. handleResult defaultConfig (envAt 1316) (Some (resultOf openHand)) draggingInterp
        = Inr s' \<and>
      positionBuffer s' = [centre, centre, p])"
proof -
  have a: "selectedHand defaultConfig noHands = None"
    by (simp add: selectedHand_def noHands_def)
  have b: "selectedHand defaultConfig (resultOf openHand) = Some (0, openHand) \<and>
      9 < length openHand"
    by (simp add: selectedHand_resultOf length_sample_hands)
  have c: "bufferSizeOf defaultConfig = 5" "positionBuffer draggingInterp = [centre, centre]"
    by (simp_all add: bufferSizeOf_def BUFFER_SIZE_MAP_def defaultConfig_def draggingInterp_def)
  from reset_keeps_interaction_state
    [of defaultConfig noHands "envAt 1316" draggingInterp 0 openHand] a
  have first: "\<exists>s'. handleResult defaultConfig (envAt 1316) (Some noHands) draggingInterp = Inr s' \<and>
      positionBuffer s' = [centre, centre] \<and> STATE s' = STATE draggingInterp \<and>
      \<not> active (cursor (gestureState s')) \<and> events (gestureState s') = {IDLE} \<and>
         gestures (gestureState s') = [] \<and> landmarks (debugInfo (gestureState s')) = []"
    by (simp add: c)
  from reset_keeps_interaction_state
    [of defaultConfig "resultOf openHand" "envAt 1316" draggingInterp 0 openHand] b
  have second: "\<exists>s' p. handleResult defaultConfig (envAt 1316) (Some (resultOf openHand))
        draggingInterp = Inr s' \<and> positionBuffer s' = [centre, centre, p]"
    by (auto simp add: c)
  from first second show ?thesis by blast
qed

section \<open>The state machine, one call at a time\<close>

lemma stateMachine_middle:
  "stateMachine t ip True act st md =
     (if isMiddleDragging st then (st, ModeRotate, {DRAG_MIDDLE_MOVE})
      else (st\<lparr>isMiddleDragging := True\<rparr>, ModeRotate, {DRAG_MIDDLE_START}))"
  by (simp add: stateMachine_def)

lemma stateMachine_hold_start:
  assumes "\<not> isDragging st" and "\<not> isMiddleDragging st" and "dragStartTime st = 0"
    and "t \<noteq> 0"
  shows "stateMachine t True False act st md = (st\<lparr>dragStartTime := t\<rparr>, md, {})"
  using assms by (simp add: stateMachine_def middleRelease_def indexPinch_def)

lemma stateMachine_hold_wait:
  assumes "\<not> isDragging st" and "\<not> isMiddleDragging st" and "dragStartTime st \<noteq> 0"
    and "t - dragStartTime st \<le> 200"
  shows "stateMachine t True False act st md = (st, md, {})"
  using assms by (simp add: stateMachine_def middleRelease_def indexPinch_def)

lemma stateMachine_hold_fire:
  assumes "\<not> isDragging st" and "\<not> isMiddleDragging st" and "dragStartTime st \<noteq> 0"
    and "t - dragStartTime st > 200"
  shows "stateMachine t True False act st md = (st\<lparr>isDragging := True\<rparr>, md, {DRAG_START})"
  using assms by (simp add: stateMachine_def middleRelease_def indexPinch_def)

lemma stateMachine_hold_drag:
  assumes "isDragging st" and "\<not> isMiddleDragging st"
  shows "stateMachine t True False act st md = (st, ModeDrag, {DRAG_MOVE})"
  using assms by (simp add: stateMachine_def middleRelease_def indexPinch_def)

lemma stateMachine_release_click:
  assumes "\<not> isDragging st" and "\<not> isMiddleDragging st" and "dragStartTime st > 0"
    and "clickCount st = 0"
  shows "stateMachine t False False True st md =
           (st\<lparr>dragStartTime := 0, clickCount := 1, clickTimer := Some (t + 300)\<rparr>, ModeNone,
            {CLICK, POINTER_MOVE})"
  using assms by (auto simp add: stateMachine_def middleRelease_def indexRelease_def Let_def)

lemma stateMachine_release_double:
  assumes "\<not> isDragging st" and "\<not> isMiddleDragging st" and "dragStartTime st > 0"
    and "clickCount st = 1"
  shows "stateMachine t False False True st md =
           (st\<lparr>dragStartTime := 0, clickCount := 0, clickTimer := None\<rparr>, ModeNone,
            {DOUBLE_CLICK, POINTER_MOVE})"
  using assms by (auto simp add: stateMachine_def middleRelease_def indexRelease_def Let_def)

text \<open>A reply with the 21 landmarks is one step of the state machine with an active cursor.\<close>

lemma handleResult_pinchFrame:
  assumes "pinchFrame cfg res ip mp"
  shows "\<exists>s'. handleResult cfg env res s = Inr s' \<and>
           (STATE s', modeOf s', eventsOf s') =
              stateMachine (now env) ip mp True (STATE s) (modeOf s)"
proof -
  from assms obtain r i h where res: "res = Some r" and sel: "selectedHand cfg r = Some (i, h)"
    and len: "length h = 21" and ip: "isPinchOf h = ip" and mp: "isMiddlePinchOf h = mp"
    by (auto simp add: pinchFrame_def split: option.splits)
  from len have "9 < length h"
    by simp
  then show ?thesis
    by (simp add: res handleResult_selected [OF sel] processHand_tip ip mp modeOf_def
        eventsOf_def)
qed

text \<open>A middle pinch needs the landmarks 4 and 12, so the hand has the landmarks 0, 8
  and 9 as well.\<close>

lemma isMiddlePinchOf_length:
  assumes "isMiddlePinchOf h"
  shows "12 < length h"
proof (rule ccontr)
  assume "\<not> 12 < length h"
  then have "elemAt h 12 = None"
    by (simp add: elemAt_def)
  then have "calculateDistance (elemAt h 12) (elemAt h 4) = 1"
    by (simp add: calculateDistance_def)
  with assms show False
    by (simp add: isMiddlePinchOf_def PINCH_THRESH_def)
qed

lemma handleResult_bothPinchFrame:
  assumes "bothPinchFrame cfg res"
  shows "\<exists>s'. handleResult cfg env res s = Inr s' \<and>
           (STATE s', modeOf s', eventsOf s') =
              stateMachine (now env) True True True (STATE s) (modeOf s)"
proof -
  from assms obtain r i h where res: "res = Some r" and sel: "selectedHand cfg r = Some (i, h)"
    and ip: "isPinchOf h" and mp: "isMiddlePinchOf h"
    by (auto simp add: bothPinchFrame_def split: option.splits)
  from mp have "9 < length h"
    using isMiddlePinchOf_length [of h] by simp
  then show ?thesis
    by (simp add: res handleResult_selected [OF sel] processHand_tip ip mp modeOf_def
        eventsOf_def)
qed

lemma runTimers_fields:
  "isDragging (STATE (runTimers t s)) = isDragging (STATE s)"
  "isMiddleDragging (STATE (runTimers t s)) = isMiddleDragging (STATE s)"
  "dragStartTime (STATE (runTimers t s)) = dragStartTime (STATE s)"
  "modeOf (runTimers t s) = modeOf s"
  by (simp_all add: runTimers_def clickTimeout_def modeOf_def split: option.splits)

lemma run_Cons:
  assumes "handleResult cfg (fst f) (snd f) (runTimers (now (fst f)) s) = Inr s'"
    and "run cfg fs s' = Inr ss"
  shows "run cfg (f # fs) s = Inr (s' # ss)"
  using assms by simp

section \<open>Hands with missing landmarks\<close>

text \<open>
  Claim C2 says that a selected hand with fewer than 21 landmarks does not make
  \<^verbatim>\<open>handleResult\<close> throw. With the landmarks 0 to 8 only (or with none), the read of
  \<^verbatim>\<open>hand[9].x\<close> (of \<^verbatim>\<open>root.x\<close>) throws; the exception leaves \<^verbatim>\<open>worker.onmessage\<close>
  before the busy flag is cleared.
\<close>

theorem short_hand_throws:
  "selectedHand defaultConfig (resultOf shortHand) = Some (0, shortHand) \<and>
   length shortHand = 9 \<and>
   handleResult defaultConfig (envAt 0) (frameOf shortHand) initialInterp = Inl TypeError \<and>
   handleResult defaultConfig (envAt 0) (frameOf []) initialInterp = Inl TypeError \<and>
   onmessage defaultConfig (envAt 0) (Result (frameOf shortHand)) runningSystem = Inl TypeError"
  by (simp add: onmessage_def runningSystem_def initialSystem_def model_defs sample_defs)

section \<open>The event flags of one call\<close>

text \<open>
  Claim C7, as stated: at most one event flag is set in the gesture state a call produces.
  A pinch that is released before the hold time has run out sets \<open>CLICK\<close>, and the last
  statement of the state machine adds \<open>POINTER_MOVE\<close> in the same call.
\<close>

theorem click_with_pointer_move_counterexample:
  "run defaultConfig [(envAt 1000, frameOf pinchHand), (envAt 1100, frameOf openHand)]
     initialInterp = Inr [holdingInterp, clickedInterp] \<and>
   events (gestureState clickedInterp) = {CLICK, POINTER_MOVE} \<and>
   CLICK \<noteq> POINTER_MOVE"
  by (simp add: model_defs sample_defs runTimers_def insert_commute)

lemma stateMachine_events_index:
  "card (snd (snd (stateMachine t ip mp act st md)) \<inter> indexEvents) \<le> 1"
  by (simp add: stateMachine_def middleRelease_def indexPinch_def indexRelease_def
      indexEvents_def Let_def)

lemma stateMachine_events_middle:
  "card (snd (snd (stateMachine t ip mp act st md)) \<inter> middleEvents) \<le> 1"
  by (simp add: stateMachine_def middleRelease_def indexPinch_def indexRelease_def
      middleEvents_def Let_def)

lemma stateMachine_events_pointer:
  "card (snd (snd (stateMachine t ip mp act st md)) \<inter> pointerEvents) \<le> 1"
  by (simp add: stateMachine_def middleRelease_def indexPinch_def indexRelease_def
      pointerEvents_def Let_def)

lemma stateMachine_events_rotate:
  assumes "DRAG_MIDDLE_START \<in> snd (snd (stateMachine t ip mp act st md)) \<or>
           DRAG_MIDDLE_MOVE \<in> snd (snd (stateMachine t ip mp act st md))"
  shows "card (snd (snd (stateMachine t ip mp act st md))) = 1"
  using assms
  by (simp add: stateMachine_def middleRelease_def indexPinch_def indexRelease_def Let_def
      split: if_splits)

lemma processHand_events:
  assumes "processHand cfg env r i h s = Inr s'"
  shows "eventsOf s' =
           snd (snd (stateMachine (now env) (isPinchOf h) (isMiddlePinchOf h)
             (case elemAt h 8 of None \<Rightarrow> active (cursor (gestureState s)) | Some tip \<Rightarrow> True)
             (STATE s) (modeOf s)))"
  using assms
  by (auto simp add: processHand_def eventsOf_def modeOf_def Let_def
      split: option.splits prod.splits)

text \<open>
  Claim C7, amended. In the gesture state produced by a call with a non-null result, the
  flags are exclusive within each of three groups: at most one of \<open>CLICK\<close>,
  \<open>DOUBLE_CLICK\<close>, \<open>DRAG_START\<close>, \<open>DRAG_MOVE\<close>, \<open>DRAG_END\<close>, at most one of
  \<open>DRAG_MIDDLE_START\<close>, \<open>DRAG_MIDDLE_MOVE\<close>, \<open>DRAG_MIDDLE_END\<close>, and at most one of \<open>IDLE\<close>,
  \<open>POINTER_MOVE\<close>. Flags of different groups may be set together; \<open>DRAG_MIDDLE_START\<close> and
  \<open>DRAG_MIDDLE_MOVE\<close> are always alone.
\<close>

theorem events_exclusive_within_groups:
  assumes "handleResult cfg env (Some r) s = Inr s'"
  shows "card (eventsOf s' \<inter> indexEvents) \<le> 1 \<and>
         card (eventsOf s' \<inter> middleEvents) \<le> 1 \<and>
         card (eventsOf s' \<inter> pointerEvents) \<le> 1 \<and>
         (DRAG_MIDDLE_START \<in> eventsOf s' \<or> DRAG_MIDDLE_MOVE \<in> eventsOf s'
            \<longrightarrow> card (eventsOf s') = 1)"
proof (cases "selectedHand cfg r")
  case None
  then have "s' = resetState s"
    using assms by (simp add: handleResult_reset)
  then show ?thesis
    by (simp add: resetState_def eventsOf_def indexEvents_def middleEvents_def
        pointerEvents_def)
next
  case (Some ih)
  obtain i h where "ih = (i, h)"
    by (cases ih)
  with Some assms have "processHand cfg env r i h s = Inr s'"
    by (simp add: handleResult_selected)
  then have "eventsOf s' =
      snd (snd (stateMachine (now env) (isPinchOf h) (isMiddlePinchOf h)
        (case elemAt h 8 of None \<Rightarrow> active (cursor (gestureState s)) | Some tip \<Rightarrow> True)
        (STATE s) (modeOf s)))"
    by (rule processHand_events)
  then show ?thesis
    using stateMachine_events_index stateMachine_events_middle stateMachine_events_pointer
      stateMachine_events_rotate
    by presburger
qed

theorem events_exclusive_within_groups_witness:
  "handleResult defaultConfig (envAt 1100) (Some (resultOf openHand)) holdingInterp
     = Inr clickedInterp \<and>
   eventsOf clickedInterp = {CLICK, POINTER_MOVE} \<and>
   card (eventsOf clickedInterp \<inter> indexEvents) \<le> 1 \<and>
   card (eventsOf clickedInterp \<inter> middleEvents) \<le> 1 \<and>
   card (eventsOf clickedInterp \<inter> pointerEvents) \<le> 1"
proof -
  have call: "handleResult defaultConfig (envAt 1100) (Some (resultOf openHand)) holdingInterp
     = Inr clickedInterp"
    by (simp add: model_defs sample_defs insert_commute)
  have "eventsOf clickedInterp = {CLICK, POINTER_MOVE}"
    by (simp add: eventsOf_def clickedInterp_def sampleState_def)
  with call events_exclusive_within_groups [OF call] show ?thesis
    by simp
qed

section \<open>Replies that arrive after the camera was stopped\<close>






section \<open>Runs of pinched replies\<close>

lemma run_append:
  assumes "run cfg xs s = Inr ss" and "run cfg ys (last (s # ss)) = Inr ts"
  shows "run cfg (xs @ ys) s = Inr (ss @ ts)"
  using assms
proof (induction xs arbitrary: s ss)
  case Nil
  then show ?case by simp
next
  case (Cons f fs)
  from Cons.prems(1) obtain s' ss' where
    call: "handleResult cfg (fst f) (snd f) (runTimers (now (fst f)) s) = Inr s'"
    and rest: "run cfg fs s' = Inr ss'" and ss: "ss = s' # ss'"
    by (auto split: sum.splits)
  from Cons.prems(2) ss have "run cfg ys (last (s' # ss')) = Inr ts"
    by simp
  from Cons.IH [OF rest this] call ss show ?case
    by simp
qed

lemma step_pinchFrame:
  assumes "pinchFrame cfg (snd f) ip mp"
  shows "\<exists>s'. handleResult cfg (fst f) (snd f) (runTimers t s) = Inr s' \<and>
           (STATE s', modeOf s', eventsOf s') =
              stateMachine (now (fst f)) ip mp True (STATE (runTimers t s)) (modeOf s)"
  using handleResult_pinchFrame [OF assms, of "fst f" "runTimers t s"]
  by (simp add: runTimers_fields)

text \<open>While the hold timer runs and has not passed 200ms, a pinched reply changes
  neither the drag fields nor the mode and sets no event.\<close>

lemma run_hold_waiting:
  assumes "\<forall>f\<in>set fs. holdFrame cfg (snd f) \<and> now (fst f) - t0 \<le> 200"
    and "\<not> isDragging (STATE s)" and "\<not> isMiddleDragging (STATE s)"
    and "dragStartTime (STATE s) = t0" and "t0 \<noteq> 0"
  shows "\<exists>ss. run cfg fs s = Inr ss \<and>
           map eventsOf ss = replicate (length fs) {} \<and>
           map modeOf ss = replicate (length fs) (modeOf s) \<and>
           (\<forall>s'\<in>set (s # ss). \<not> isDragging (STATE s') \<and> \<not> isMiddleDragging (STATE s') \<and>
              dragStartTime (STATE s') = t0)"
  using assms
proof (induction fs arbitrary: s)
  case Nil
  then show ?case by simp
next
  case (Cons f fs)
  from Cons.prems(1) have f: "pinchFrame cfg (snd f) True False" "now (fst f) - t0 \<le> 200"
    by (simp_all add: holdFrame_def)
  from step_pinchFrame [OF f(1)] obtain s' where
    call: "handleResult cfg (fst f) (snd f) (runTimers (now (fst f)) s) = Inr s'"
    and step: "(STATE s', modeOf s', eventsOf s') =
       stateMachine (now (fst f)) True False True (STATE (runTimers (now (fst f)) s)) (modeOf s)"
    by blast
  have "stateMachine (now (fst f)) True False True (STATE (runTimers (now (fst f)) s)) (modeOf s)
      = (STATE (runTimers (now (fst f)) s), modeOf s, {})"
    using Cons.prems f(2) by (intro stateMachine_hold_wait) (simp_all add: runTimers_fields)
  with step have here: "eventsOf s' = {}" "modeOf s' = modeOf s" "\<not> isDragging (STATE s')"
    "\<not> isMiddleDragging (STATE s')" "dragStartTime (STATE s') = t0"
    using Cons.prems by (simp_all add: runTimers_fields)
  from Cons.prems(1) have "\<forall>f\<in>set fs. holdFrame cfg (snd f) \<and> now (fst f) - t0 \<le> 200"
    by simp
  from Cons.IH [OF this here(3,4,5) Cons.prems(5)] obtain ss where
    rest: "run cfg fs s' = Inr ss"
    and ev: "map eventsOf ss = replicate (length fs) {}"
    and md: "map modeOf ss = replicate (length fs) (modeOf s')"
    and inv: "\<forall>s''\<in>set (s' # ss). \<not> isDragging (STATE s'') \<and> \<not> isMiddleDragging (STATE s'') \<and>
              dragStartTime (STATE s'') = t0"
    by blast
  have "run cfg (f # fs) s = Inr (s' # ss)"
    using call rest by (rule run_Cons)
  with ev md inv here Cons.prems show ?case
    by simp
qed

text \<open>Once the drag flag is set, every pinched reply is a \<open>DRAG_MOVE\<close> in mode drag.\<close>

lemma run_hold_dragging:
  assumes "\<forall>f\<in>set fs. holdFrame cfg (snd f)"
    and "isDragging (STATE s)" and "\<not> isMiddleDragging (STATE s)"
  shows "\<exists>ss. run cfg fs s = Inr ss \<and>
           map eventsOf ss = replicate (length fs) {DRAG_MOVE} \<and>
           map modeOf ss = replicate (length fs) ModeDrag \<and>
           (\<forall>s'\<in>set ss. isDragging (STATE s') \<and>
              dragStartTime (STATE s') = dragStartTime (STATE s))"
  using assms
proof (induction fs arbitrary: s)
  case Nil
  then show ?case by simp
next
  case (Cons f fs)
  from Cons.prems(1) have f: "pinchFrame cfg (snd f) True False"
    by (simp add: holdFrame_def)
  from step_pinchFrame [OF f] obtain s' where
    call: "handleResult cfg (fst f) (snd f) (runTimers (now (fst f)) s) = Inr s'"
    and step: "(STATE s', modeOf s', eventsOf s') =
       stateMachine (now (fst f)) True False True (STATE (runTimers (now (fst f)) s)) (modeOf s)"
    by blast
  have "stateMachine (now (fst f)) True False True (STATE (runTimers (now (fst f)) s)) (modeOf s)
      = (STATE (runTimers (now (fst f)) s), ModeDrag, {DRAG_MOVE})"
    using Cons.prems by (intro stateMachine_hold_drag) (simp_all add: runTimers_fields)
  with step have here: "eventsOf s' = {DRAG_MOVE}" "modeOf s' = ModeDrag" "isDragging (STATE s')"
    "\<not> isMiddleDragging (STATE s')" "dragStartTime (STATE s') = dragStartTime (STATE s)"
    using Cons.prems by (simp_all add: runTimers_fields)
  from Cons.prems(1) have "\<forall>f\<in>set fs. holdFrame cfg (snd f)"
    by simp
  from Cons.IH [OF this here(3,4)] obtain ss where
    rest: "run cfg fs s' = Inr ss"
    and ev: "map eventsOf ss = replicate (length fs) {DRAG_MOVE}"
    and md: "map modeOf ss = replicate (length fs) ModeDrag"
    and inv: "\<forall>s''\<in>set ss. isDragging (STATE s'') \<and>
              dragStartTime (STATE s'') = dragStartTime (STATE s')"
    by blast
  have "run cfg (f # fs) s = Inr (s' # ss)"
    using call rest by (rule run_Cons)
  with ev md inv here show ?case
    by simp
qed

lemma map_const_replicate:
  assumes "\<forall>a\<in>set xs. g a = c"
  shows "map g xs = replicate (length xs) c"
  using assms by (induction xs) simp_all

lemma holdFrame_sample: "holdFrame defaultConfig (frameOf pinchHand)"
  by (simp add: holdFrame_def pinchFrame_def frameOf_def selectedHand_resultOf
      pinches_pinchHand length_sample_hands)

lemma releaseFrame_sample: "releaseFrame defaultConfig (frameOf openHand)"
  by (simp add: releaseFrame_def pinchFrame_def frameOf_def selectedHand_resultOf
      pinches_openHand length_sample_hands)

section \<open>From a held index pinch to a drag\<close>

lemma trace_held_200:
  "traceOf (run defaultConfig
      [(envAt 1000, frameOf pinchHand), (envAt 1100, frameOf pinchHand),
       (envAt 1200, frameOf pinchHand)] initialInterp)
     = [({}, ModeNone, False), ({}, ModeNone, False), ({}, ModeNone, False)]"
  by (simp add: traceOf_def eventsOf_def modeOf_def runTimers_def model_defs sample_defs)

lemma trace_held_300:
  "traceOf (run defaultConfig
      [(envAt 1000, frameOf pinchHand), (envAt 1300, frameOf pinchHand),
       (envAt 1400, frameOf pinchHand)] initialInterp)
     = [({}, ModeNone, False), ({DRAG_START}, ModeNone, True), ({DRAG_MOVE}, ModeDrag, True)]"
  by (simp add: traceOf_def eventsOf_def modeOf_def runTimers_def model_defs sample_defs)

lemma trace_stale_timer:
  "traceOf (run defaultConfig
      [(envAt 1000, frameOf pinchHand), (envAt 1100, Some noHands),
       (envAt 5000, frameOf pinchHand)] initialInterp)
     = [({}, ModeNone, False), ({IDLE}, ModeNone, False), ({DRAG_START}, ModeNone, True)]"
  by (simp add: traceOf_def eventsOf_def modeOf_def runTimers_def model_defs sample_defs)

text \<open>
  Claim C4, as stated: with the drag flag unset, the hold timer starts on the first pinched
  call, and once the pinch has been held for 200ms the call emits \<open>DRAG_START\<close>, sets the
  drag flag and sets the mode to drag. Three runs from the initial state show otherwise.
  Pinched replies at 1000, 1100 and 1200: the pinch has been held for 200ms and no drag
  starts, the test is \<^verbatim>\<open>now - dragStartTime > 200\<close>. Pinched replies at 1000, 1300 and
  1400: the second one emits \<open>DRAG_START\<close> and leaves the mode at none, the mode is drag
  from the third one on. A pinched reply at 1000, no hand at 1100, a pinched reply at
  5000: the timer of the first pinch is still running, so the first call of the new pinch
  emits \<open>DRAG_START\<close>.
\<close>

theorem hold_to_drag_counterexample:
  "traceOf (run defaultConfig
      [(envAt 1000, frameOf pinchHand), (envAt 1100, frameOf pinchHand),
       (envAt 1200, frameOf pinchHand)] initialInterp)
     = [({}, ModeNone, False), ({}, ModeNone, False), ({}, ModeNone, False)] \<and>
   traceOf (run defaultConfig
      [(envAt 1000, frameOf pinchHand), (envAt 1300, frameOf pinchHand),
       (envAt 1400, frameOf pinchHand)] initialInterp)
     = [({}, ModeNone, False), ({DRAG_START}, ModeNone, True), ({DRAG_MOVE}, ModeDrag, True)] \<and>
   traceOf (run defaultConfig
      [(envAt 1000, frameOf pinchHand), (envAt 1100, Some noHands),
       (envAt 5000, frameOf pinchHand)] initialInterp)
     = [({}, ModeNone, False), ({IDLE}, ModeNone, False), ({DRAG_START}, ModeNone, True)]"
  by (intro conjI trace_held_200 trace_held_300 trace_stale_timer)


text \<open>
  Claim C4, amended. Take consecutive calls whose selected hand shows the index pinch and
  no middle pinch, starting with both drag flags unset and the hold timer unset
  (\<open>dragStartTime = 0\<close>), the first call at a time other than 0. The first call starts the
  hold timer. As long as a call comes at most 200ms after the first one, it sets no event
  and leaves the drag flag unset and the mode as it was. The first call that comes more
  than 200ms after the first one emits \<open>DRAG_START\<close>, and only that, and sets the drag
  flag. Every later call emits \<open>DRAG_MOVE\<close>, and only that, with the mode set to drag.
  So \<open>DRAG_START\<close> is emitted exactly once. (What the mode is in the call that emits
  \<open>DRAG_START\<close> is not part of the statement.)
\<close>

theorem hold_then_drag:
  assumes "\<not> isDragging (STATE s)" and "\<not> isMiddleDragging (STATE s)"
    and "dragStartTime (STATE s) = 0"
    and "\<forall>q\<in>set (p # pre @ f # post). holdFrame cfg (snd q)"
    and "now (fst p) \<noteq> 0"
    and "\<forall>q\<in>set pre. now (fst q) - now (fst p) \<le> 200"
    and "200 < now (fst f) - now (fst p)"
  shows "\<exists>ss. run cfg (p # pre @ f # post) s = Inr ss \<and>
           map eventsOf ss =
             replicate (Suc (length pre)) {} @ {DRAG_START} # replicate (length post) {DRAG_MOVE} \<and>
           map (\<lambda>s'. isDragging (STATE s')) ss =
             replicate (Suc (length pre)) False @ replicate (Suc (length post)) True \<and>
           (\<forall>s'\<in>set ss. dragStartTime (STATE s') = now (fst p)) \<and>
           map modeOf (take (Suc (length pre)) ss) = replicate (Suc (length pre)) (modeOf s) \<and>
           map modeOf (drop (Suc (Suc (length pre))) ss) = replicate (length post) ModeDrag"
proof -
  let ?t0 = "now (fst p)"
  from assms(4) have hp: "pinchFrame cfg (snd p) True False"
    and hf: "pinchFrame cfg (snd f) True False"
    and hpre: "\<forall>q\<in>set pre. holdFrame cfg (snd q)"
    and hpost: "\<forall>q\<in>set post. holdFrame cfg (snd q)"
    by (simp_all add: holdFrame_def)
  \<comment> \<open>the first call starts the timer\<close>
  from step_pinchFrame [OF hp] obtain s1 where
    call1: "handleResult cfg (fst p) (snd p) (runTimers ?t0 s) = Inr s1"
    and step1: "(STATE s1, modeOf s1, eventsOf s1) =
       stateMachine ?t0 True False True (STATE (runTimers ?t0 s)) (modeOf s)"
    by blast
  have "stateMachine ?t0 True False True (STATE (runTimers ?t0 s)) (modeOf s)
      = ((STATE (runTimers ?t0 s))\<lparr>dragStartTime := ?t0\<rparr>, modeOf s, {})"
    using assms(1,2,3,5) by (intro stateMachine_hold_start) (simp_all add: runTimers_fields)
  with step1 have s1: "eventsOf s1 = {}" "modeOf s1 = modeOf s" "\<not> isDragging (STATE s1)"
    "\<not> isMiddleDragging (STATE s1)" "dragStartTime (STATE s1) = ?t0"
    using assms(1,2) by (simp_all add: runTimers_fields)
  \<comment> \<open>the calls within 200ms\<close>
  from hpre assms(6) have "\<forall>q\<in>set pre. holdFrame cfg (snd q) \<and> now (fst q) - ?t0 \<le> 200"
    by simp
  from run_hold_waiting [OF this s1(3,4,5) assms(5)] obtain ss1 where
    run1: "run cfg pre s1 = Inr ss1"
    and ev1: "map eventsOf ss1 = replicate (length pre) {}"
    and md1: "map modeOf ss1 = replicate (length pre) (modeOf s1)"
    and inv1: "\<forall>s'\<in>set (s1 # ss1). \<not> isDragging (STATE s') \<and> \<not> isMiddleDragging (STATE s') \<and>
              dragStartTime (STATE s') = ?t0"
    by blast
  from ev1 have len1: "length ss1 = length pre"
    by (metis length_map length_replicate)
  let ?s2 = "last (s1 # ss1)"
  have "?s2 \<in> set (s1 # ss1)"
    by (rule last_in_set) simp
  with inv1 have s2: "\<not> isDragging (STATE ?s2)" "\<not> isMiddleDragging (STATE ?s2)"
    "dragStartTime (STATE ?s2) = ?t0"
    by blast+
  \<comment> \<open>the first call after more than 200ms\<close>
  from step_pinchFrame [OF hf] obtain s3 where
    call3: "handleResult cfg (fst f) (snd f) (runTimers (now (fst f)) ?s2) = Inr s3"
    and step3: "(STATE s3, modeOf s3, eventsOf s3) =
       stateMachine (now (fst f)) True False True (STATE (runTimers (now (fst f)) ?s2))
         (modeOf ?s2)"
    by blast
  have "stateMachine (now (fst f)) True False True (STATE (runTimers (now (fst f)) ?s2))
         (modeOf ?s2)
      = ((STATE (runTimers (now (fst f)) ?s2))\<lparr>isDragging := True\<rparr>, modeOf ?s2, {DRAG_START})"
    using s2 assms(5,7) by (intro stateMachine_hold_fire) (simp_all add: runTimers_fields)
  with step3 have s3: "eventsOf s3 = {DRAG_START}" "isDragging (STATE s3)"
    "\<not> isMiddleDragging (STATE s3)" "dragStartTime (STATE s3) = ?t0"
    using s2 by (simp_all add: runTimers_fields)
  \<comment> \<open>the calls after that\<close>
  from run_hold_dragging [OF hpost s3(2,3)] obtain ss4 where
    run4: "run cfg post s3 = Inr ss4"
    and ev4: "map eventsOf ss4 = replicate (length post) {DRAG_MOVE}"
    and md4: "map modeOf ss4 = replicate (length post) ModeDrag"
    and inv4: "\<forall>s'\<in>set ss4. isDragging (STATE s') \<and> dragStartTime (STATE s') = ?t0"
    using s3(4) by auto
  have "run cfg (f # post) ?s2 = Inr (s3 # ss4)"
    using call3 run4 by (rule run_Cons)
  with run1 have "run cfg (pre @ f # post) s1 = Inr (ss1 @ s3 # ss4)"
    by (rule run_append)
  with call1 have run: "run cfg (p # pre @ f # post) s = Inr (s1 # ss1 @ s3 # ss4)"
    by (rule run_Cons)
  have drag1: "map (\<lambda>s'. isDragging (STATE s')) ss1 = replicate (length pre) False"
    using inv1 map_const_replicate [of ss1 "\<lambda>s'. isDragging (STATE s')" False] len1 by simp
  have drag4: "map (\<lambda>s'. isDragging (STATE s')) ss4 = replicate (length post) True"
    using inv4 ev4 map_const_replicate [of ss4 "\<lambda>s'. isDragging (STATE s')" True]
    by (metis length_map length_replicate)
  have "map eventsOf (s1 # ss1 @ s3 # ss4) =
      replicate (Suc (length pre)) {} @ {DRAG_START} # replicate (length post) {DRAG_MOVE}"
    using s1(1) ev1 s3(1) ev4 by simp
  moreover have "map (\<lambda>s'. isDragging (STATE s')) (s1 # ss1 @ s3 # ss4) =
      replicate (Suc (length pre)) False @ replicate (Suc (length post)) True"
    using s1(3) drag1 s3(2) drag4 by simp
  moreover have "\<forall>s'\<in>set (s1 # ss1 @ s3 # ss4). dragStartTime (STATE s') = ?t0"
    using inv1 s3(4) inv4 by auto
  moreover have "map modeOf (take (Suc (length pre)) (s1 # ss1 @ s3 # ss4)) =
      replicate (Suc (length pre)) (modeOf s)"
    using s1(2) md1 len1 by simp
  moreover have "map modeOf (drop (Suc (Suc (length pre))) (s1 # ss1 @ s3 # ss4)) =
      replicate (length post) ModeDrag"
    using md4 len1 by simp
  ultimately show ?thesis
    using run by blast
qed

theorem hold_then_drag_witness:
  "\<exists>ss. run defaultConfig
      [(envAt 1000, frameOf pinchHand), (envAt 1100, frameOf pinchHand),
       (envAt 1200, frameOf pinchHand), (envAt 1300, frameOf pinchHand),
       (envAt 1400, frameOf pinchHand), (envAt 1500, frameOf pinchHand)] initialInterp = Inr ss \<and>
     map eventsOf ss = [{}, {}, {}, {DRAG_START}, {DRAG_MOVE}, {DRAG_MOVE}] \<and>
     map (\<lambda>s'. isDragging (STATE s')) ss = [False, False, False, True, True, True] \<and>
     map modeOf (take 3 ss) = [ModeNone, ModeNone, ModeNone] \<and>
     map modeOf (drop 4 ss) = [ModeDrag, ModeDrag]"
proof -
  have init: "\<not> isDragging (STATE initialInterp)" "\<not> isMiddleDragging (STATE initialInterp)"
    "dragStartTime (STATE initialInterp) = 0" "modeOf initialInterp = ModeNone"
    by (simp_all add: initialInterp_def initialSTATE_def initialGestureState_def modeOf_def)
  have frames: "\<forall>q\<in>set ((envAt 1000, frameOf pinchHand) #
       [(envAt 1100, frameOf pinchHand), (envAt 1200, frameOf pinchHand)] @
       (envAt 1300, frameOf pinchHand) #
       [(envAt 1400, frameOf pinchHand), (envAt 1500, frameOf pinchHand)]).
       holdFrame defaultConfig (snd q)"
    by (simp add: holdFrame_sample)
  have t0: "now (fst (envAt 1000, frameOf pinchHand)) \<noteq> 0"
    by (simp add: envAt_def)
  have early: "\<forall>q\<in>set [(envAt 1100, frameOf pinchHand), (envAt 1200, frameOf pinchHand)].
       now (fst q) - now (fst (envAt 1000, frameOf pinchHand)) \<le> 200"
    by (simp add: envAt_def)
  have late: "200 < now (fst (envAt 1300, frameOf pinchHand)) -
       now (fst (envAt 1000, frameOf pinchHand))"
    by (simp add: envAt_def)
  have n: "(3::nat) = Suc (Suc (Suc 0))" "(4::nat) = Suc (Suc (Suc (Suc 0)))"
    by simp_all
  from hold_then_drag [OF init(1,2,3) frames t0 early late] show ?thesis
    unfolding n
    apply (simp add: init(4) del: run.simps)
    apply (elim exE conjE)
    apply (intro exI conjI)
        apply assumption+
    done
qed

section \<open>Middle pinch before index pinch\<close>

lemma run_bothPinch_moving:
  assumes "\<forall>f\<in>set fs. bothPinchFrame cfg (snd f)" and "isMiddleDragging (STATE s)"
  shows "\<exists>ss. run cfg fs s = Inr ss \<and>
           map eventsOf ss = replicate (length fs) {DRAG_MIDDLE_MOVE} \<and>
           (\<forall>s'\<in>set ss. modeOf s' = ModeRotate \<and> isMiddleDragging (STATE s') \<and>
              isDragging (STATE s') = isDragging (STATE s) \<and>
              dragStartTime (STATE s') = dragStartTime (STATE s))"
  using assms
proof (induction fs arbitrary: s)
  case Nil
  then show ?case by simp
next
  case (Cons f fs)
  from Cons.prems(1) have "bothPinchFrame cfg (snd f)"
    by simp
  then obtain s' where call: "handleResult cfg (fst f) (snd f) (runTimers (now (fst f)) s) = Inr s'"
    and step: "(STATE s', modeOf s', eventsOf s') =
       stateMachine (now (fst f)) True True True (STATE (runTimers (now (fst f)) s))
         (modeOf (runTimers (now (fst f)) s))"
    using handleResult_bothPinchFrame by blast
  from step Cons.prems(2) have here: "eventsOf s' = {DRAG_MIDDLE_MOVE}" "modeOf s' = ModeRotate"
    "isMiddleDragging (STATE s')" "isDragging (STATE s') = isDragging (STATE s)"
    "dragStartTime (STATE s') = dragStartTime (STATE s)"
    by (simp_all add: stateMachine_middle runTimers_fields)
  from Cons.prems(1) have "\<forall>f\<in>set fs. bothPinchFrame cfg (snd f)"
    by simp
  from Cons.IH [OF this here(3)] obtain ss where rest: "run cfg fs s' = Inr ss"
    and ev: "map eventsOf ss = replicate (length fs) {DRAG_MIDDLE_MOVE}"
    and inv: "\<forall>s''\<in>set ss. modeOf s'' = ModeRotate \<and> isMiddleDragging (STATE s'') \<and>
              isDragging (STATE s'') = isDragging (STATE s') \<and>
              dragStartTime (STATE s'') = dragStartTime (STATE s')"
    by blast
  have "run cfg (f # fs) s = Inr (s' # ss)"
    using call rest by (rule run_Cons)
  with ev inv here show ?case
    by simp
qed

lemma stateMachine_hold_fire_after_middle:
  assumes "\<not> isDragging st" and "isMiddleDragging st" and "dragStartTime st \<noteq> 0"
    and "t - dragStartTime st > 200"
  shows "stateMachine t True False act st md =
           (st\<lparr>isMiddleDragging := False, isDragging := True\<rparr>, md,
            {DRAG_MIDDLE_END, DRAG_START})"
  using assms
  by (simp add: stateMachine_def middleRelease_def indexPinch_def insert_commute)

lemma middle_pinch_calls:
  "(bothPinchFrame cfg res \<longrightarrow>
      (\<exists>s'. handleResult cfg env res s = Inr s' \<and>
         modeOf s' = ModeRotate \<and>
         eventsOf s' =
           (if isMiddleDragging (STATE s) then {DRAG_MIDDLE_MOVE} else {DRAG_MIDDLE_START}) \<and>
         DRAG_START \<notin> eventsOf s' \<and> DRAG_MOVE \<notin> eventsOf s' \<and> DRAG_END \<notin> eventsOf s' \<and>
         isMiddleDragging (STATE s') \<and>
         isDragging (STATE s') = isDragging (STATE s) \<and>
         dragStartTime (STATE s') = dragStartTime (STATE s))) \<and>
   ((\<forall>f\<in>set (f0 # fs). bothPinchFrame cfg (snd f)) \<longrightarrow>
      (\<exists>ss. run cfg (f0 # fs) s = Inr ss \<and>
         map eventsOf ss =
           (if isMiddleDragging (STATE s) then {DRAG_MIDDLE_MOVE} else {DRAG_MIDDLE_START})
             # replicate (length fs) {DRAG_MIDDLE_MOVE} \<and>
         (\<forall>s'\<in>set ss. modeOf s' = ModeRotate \<and>
            isDragging (STATE s') = isDragging (STATE s) \<and>
            dragStartTime (STATE s') = dragStartTime (STATE s))))"
proof (intro conjI impI)
  assume "bothPinchFrame cfg res"
  then obtain s' where call: "handleResult cfg env res s = Inr s'"
    and step: "(STATE s', modeOf s', eventsOf s') =
       stateMachine (now env) True True True (STATE s) (modeOf s)"
    using handleResult_bothPinchFrame by blast
  from step have "modeOf s' = ModeRotate \<and>
         eventsOf s' =
           (if isMiddleDragging (STATE s) then {DRAG_MIDDLE_MOVE} else {DRAG_MIDDLE_START}) \<and>
         DRAG_START \<notin> eventsOf s' \<and> DRAG_MOVE \<notin> eventsOf s' \<and> DRAG_END \<notin> eventsOf s' \<and>
         isMiddleDragging (STATE s') \<and>
         isDragging (STATE s') = isDragging (STATE s) \<and>
         dragStartTime (STATE s') = dragStartTime (STATE s)"
    by (simp add: stateMachine_middle split: if_splits)
  with call show "\<exists>s'. handleResult cfg env res s = Inr s' \<and>
         modeOf s' = ModeRotate \<and>
         eventsOf s' =
           (if isMiddleDragging (STATE s) then {DRAG_MIDDLE_MOVE} else {DRAG_MIDDLE_START}) \<and>
         DRAG_START \<notin> eventsOf s' \<and> DRAG_MOVE \<notin> eventsOf s' \<and> DRAG_END \<notin> eventsOf s' \<and>
         isMiddleDragging (STATE s') \<and>
         isDragging (STATE s') = isDragging (STATE s) \<and>
         dragStartTime (STATE s') = dragStartTime (STATE s)"
    by blast
next
  assume all: "\<forall>f\<in>set (f0 # fs). bothPinchFrame cfg (snd f)"
  then have "bothPinchFrame cfg (snd f0)"
    by simp
  then obtain s' where call:
      "handleResult cfg (fst f0) (snd f0) (runTimers (now (fst f0)) s) = Inr s'"
    and step: "(STATE s', modeOf s', eventsOf s') =
       stateMachine (now (fst f0)) True True True (STATE (runTimers (now (fst f0)) s))
         (modeOf (runTimers (now (fst f0)) s))"
    using handleResult_bothPinchFrame by blast
  from step have here: "modeOf s' = ModeRotate"
    "eventsOf s' =
       (if isMiddleDragging (STATE s) then {DRAG_MIDDLE_MOVE} else {DRAG_MIDDLE_START})"
    "isMiddleDragging (STATE s')" "isDragging (STATE s') = isDragging (STATE s)"
    "dragStartTime (STATE s') = dragStartTime (STATE s)"
    by (simp_all add: stateMachine_middle runTimers_fields split: if_splits)
  from all have "\<forall>f\<in>set fs. bothPinchFrame cfg (snd f)"
    by simp
  from run_bothPinch_moving [OF this here(3)] obtain ss where rest: "run cfg fs s' = Inr ss"
    and ev: "map eventsOf ss = replicate (length fs) {DRAG_MIDDLE_MOVE}"
    and inv: "\<forall>s''\<in>set ss. modeOf s'' = ModeRotate \<and> isMiddleDragging (STATE s'') \<and>
              isDragging (STATE s'') = isDragging (STATE s') \<and>
              dragStartTime (STATE s'') = dragStartTime (STATE s')"
    by blast
  have "run cfg (f0 # fs) s = Inr (s' # ss)"
    using call rest by (rule run_Cons)
  with ev inv here show "\<exists>ss. run cfg (f0 # fs) s = Inr ss \<and>
         map eventsOf ss =
           (if isMiddleDragging (STATE s) then {DRAG_MIDDLE_MOVE} else {DRAG_MIDDLE_START})
             # replicate (length fs) {DRAG_MIDDLE_MOVE} \<and>
         (\<forall>s'\<in>set ss. modeOf s' = ModeRotate \<and>
            isDragging (STATE s') = isDragging (STATE s) \<and>
            dragStartTime (STATE s') = dragStartTime (STATE s))"
    by simp
qed

text \<open>The hold timer is the time since \<open>dragStartTime\<close>: it runs on while the middle pinch
  is held, and the first call with the index pinch alone tests it.\<close>

lemma drag_after_middle_pinch:
  assumes "\<forall>f\<in>set (f0 # fs). bothPinchFrame cfg (snd f)" and "holdFrame cfg (snd g)"
    and "\<not> isDragging (STATE s)" and "dragStartTime (STATE s) \<noteq> 0"
    and "200 < now (fst g) - dragStartTime (STATE s)"
  shows "\<exists>ss. run cfg (f0 # fs @ [g]) s = Inr ss \<and>
           map eventsOf ss =
             (if isMiddleDragging (STATE s) then {DRAG_MIDDLE_MOVE} else {DRAG_MIDDLE_START})
               # replicate (length fs) {DRAG_MIDDLE_MOVE} @ [{DRAG_MIDDLE_END, DRAG_START}] \<and>
           isDragging (STATE (last ss))"
proof -
  let ?d = "dragStartTime (STATE s)"
  from assms(1) have "bothPinchFrame cfg (snd f0)"
    by simp
  then obtain s' where call:
      "handleResult cfg (fst f0) (snd f0) (runTimers (now (fst f0)) s) = Inr s'"
    and step: "(STATE s', modeOf s', eventsOf s') =
       stateMachine (now (fst f0)) True True True (STATE (runTimers (now (fst f0)) s))
         (modeOf (runTimers (now (fst f0)) s))"
    using handleResult_bothPinchFrame by blast
  from step assms(3) have here:
    "eventsOf s' =
       (if isMiddleDragging (STATE s) then {DRAG_MIDDLE_MOVE} else {DRAG_MIDDLE_START})"
    "isMiddleDragging (STATE s')" "\<not> isDragging (STATE s')" "dragStartTime (STATE s') = ?d"
    by (simp_all add: stateMachine_middle runTimers_fields split: if_splits)
  from assms(1) have "\<forall>f\<in>set fs. bothPinchFrame cfg (snd f)"
    by simp
  from run_bothPinch_moving [OF this here(2)] obtain ss where rest: "run cfg fs s' = Inr ss"
    and ev: "map eventsOf ss = replicate (length fs) {DRAG_MIDDLE_MOVE}"
    and inv: "\<forall>s''\<in>set ss. modeOf s'' = ModeRotate \<and> isMiddleDragging (STATE s'') \<and>
              isDragging (STATE s'') = isDragging (STATE s') \<and>
              dragStartTime (STATE s'') = dragStartTime (STATE s')"
    by blast
  let ?b = "last (s' # ss)"
  have "?b \<in> set (s' # ss)"
    by (rule last_in_set) simp
  with inv here have b: "\<not> isDragging (STATE ?b)" "isMiddleDragging (STATE ?b)"
    "dragStartTime (STATE ?b) = ?d"
    by auto
  from assms(2) have "pinchFrame cfg (snd g) True False"
    by (simp add: holdFrame_def)
  from step_pinchFrame [OF this] obtain c where
    callg: "handleResult cfg (fst g) (snd g) (runTimers (now (fst g)) ?b) = Inr c"
    and stepg: "(STATE c, modeOf c, eventsOf c) =
       stateMachine (now (fst g)) True False True (STATE (runTimers (now (fst g)) ?b))
         (modeOf ?b)"
    by blast
  have "stateMachine (now (fst g)) True False True (STATE (runTimers (now (fst g)) ?b))
         (modeOf ?b)
      = ((STATE (runTimers (now (fst g)) ?b))\<lparr>isMiddleDragging := False, isDragging := True\<rparr>,
         modeOf ?b, {DRAG_MIDDLE_END, DRAG_START})"
    using b assms(4,5)
    by (intro stateMachine_hold_fire_after_middle) (simp_all add: runTimers_fields)
  with stepg have c: "eventsOf c = {DRAG_MIDDLE_END, DRAG_START}" "isDragging (STATE c)"
    by simp_all
  have first: "run cfg (f0 # fs) s = Inr (s' # ss)"
    using call rest by (rule run_Cons)
  have "run cfg [g] (last (s # s' # ss)) = Inr [c]"
    using callg by simp
  with first have "run cfg ((f0 # fs) @ [g]) s = Inr ((s' # ss) @ [c])"
    by (rule run_append)
  then have whole: "run cfg (f0 # fs @ [g]) s = Inr (s' # ss @ [c])"
    by simp
  have evs: "map eventsOf (s' # ss @ [c]) =
      (if isMiddleDragging (STATE s) then {DRAG_MIDDLE_MOVE} else {DRAG_MIDDLE_START})
        # replicate (length fs) {DRAG_MIDDLE_MOVE} @ [{DRAG_MIDDLE_END, DRAG_START}]"
    using here(1) ev c(1) by simp
  have drag: "isDragging (STATE (last (s' # ss @ [c])))"
    using c(2) by simp
  show ?thesis
    by (intro exI [of _ "s' # ss @ [c]"] conjI whole evs drag)
qed

lemma trace_middle_then_drag:
  "traceOf (run defaultConfig
      [(envAt 1000, frameOf pinchHand), (envAt 1033, frameOf bothPinchHand),
       (envAt 1500, frameOf bothPinchHand), (envAt 1866, frameOf bothPinchHand),
       (envAt 1900, frameOf pinchHand)] initialInterp)
     = [({}, ModeNone, False), ({DRAG_MIDDLE_START}, ModeRotate, False),
        ({DRAG_MIDDLE_MOVE}, ModeRotate, False), ({DRAG_MIDDLE_MOVE}, ModeRotate, False),
        ({DRAG_MIDDLE_END, DRAG_START}, ModeRotate, True)]"
  by (simp add: traceOf_def eventsOf_def modeOf_def runTimers_def model_defs sample_defs
      insert_commute)

text \<open>
  Claim C6, as stated: while both pinches are held the middle pinch wins, and the index
  hold timer does not progress toward drag. The first part holds; the timer does
  progress. It is the time since \<open>dragStartTime\<close>, and the calls with a middle pinch leave
  that start time alone. An index pinch seen at 1000, both pinches at 1033, 1500 and
  1866, the index pinch alone again at 1900: the index pinch was seen alone for 33ms and
  then for one call, and that call emits \<open>DRAG_START\<close> at once, the 200ms having run out
  under the middle pinch.
\<close>

theorem hold_timer_under_middle_pinch_counterexample:
  "traceOf (run defaultConfig
      [(envAt 1000, frameOf pinchHand), (envAt 1033, frameOf bothPinchHand),
       (envAt 1500, frameOf bothPinchHand), (envAt 1866, frameOf bothPinchHand),
       (envAt 1900, frameOf pinchHand)] initialInterp)
     = [({}, ModeNone, False), ({DRAG_MIDDLE_START}, ModeRotate, False),
        ({DRAG_MIDDLE_MOVE}, ModeRotate, False), ({DRAG_MIDDLE_MOVE}, ModeRotate, False),
        ({DRAG_MIDDLE_END, DRAG_START}, ModeRotate, True)]"
  by (rule trace_middle_then_drag)

text \<open>
  Claim C6, amended. In a call whose selected hand shows both the middle pinch and the
  index pinch, the middle pinch wins: the mode is rotate, the events are
  \<open>DRAG_MIDDLE_START\<close> (when no middle drag was on) or \<open>DRAG_MIDDLE_MOVE\<close> and nothing else,
  so none of \<open>DRAG_START\<close>, \<open>DRAG_MOVE\<close>, \<open>DRAG_END\<close>, and the index drag flag and the start
  time of the hold timer are what they were. Over any number of consecutive such calls no
  drag begins: the drag flag and the start time of the hold timer never change. The hold
  time itself keeps running during these calls: when a hold timer was started before them
  and no drag was on, the first call with the index pinch alone that comes more than
  200ms after that start emits \<open>DRAG_MIDDLE_END\<close> and \<open>DRAG_START\<close> and sets the drag flag.
\<close>

theorem middle_pinch_precedence:
  "(bothPinchFrame cfg res \<longrightarrow>
      (\<exists>s'. handleResult cfg env res s = Inr s' \<and>
         modeOf s' = ModeRotate \<and>
         eventsOf s' =
           (if isMiddleDragging (STATE s) then {DRAG_MIDDLE_MOVE} else {DRAG_MIDDLE_START}) \<and>
         DRAG_START \<notin> eventsOf s' \<and> DRAG_MOVE \<notin> eventsOf s' \<and> DRAG_END \<notin> eventsOf s' \<and>
         isMiddleDragging (STATE s') \<and>
         isDragging (STATE s') = isDragging (STATE s) \<and>
         dragStartTime (STATE s') = dragStartTime (STATE s))) \<and>
   ((\<forall>f\<in>set (f0 # fs). bothPinchFrame cfg (snd f)) \<longrightarrow>
      (\<exists>ss. run cfg (f0 # fs) s = Inr ss \<and>
         map eventsOf ss =
           (if isMiddleDragging (STATE s) then {DRAG_MIDDLE_MOVE} else {DRAG_MIDDLE_START})
             # replicate (length fs) {DRAG_MIDDLE_MOVE} \<and>
         (\<forall>s'\<in>set ss. modeOf s' = ModeRotate \<and>
            isDragging (STATE s') = isDragging (STATE s) \<and>
            dragStartTime (STATE s') = dragStartTime (STATE s)))) \<and>
   ((\<forall>f\<in>set (f0 # fs). bothPinchFrame cfg (snd f)) \<and> holdFrame cfg (snd g) \<and>
    \<not> isDragging (STATE s) \<and> dragStartTime (STATE s) \<noteq> 0 \<and>
    200 < now (fst g) - dragStartTime (STATE s) \<longrightarrow>
      (\<exists>ss. run cfg (f0 # fs @ [g]) s = Inr ss \<and>
         map eventsOf ss =
           (if isMiddleDragging (STATE s) then {DRAG_MIDDLE_MOVE} else {DRAG_MIDDLE_START})
             # replicate (length fs) {DRAG_MIDDLE_MOVE} @ [{DRAG_MIDDLE_END, DRAG_START}] \<and>
         isDragging (STATE (last ss))))"
proof (intro conjI impI)
  assume "(\<forall>f\<in>set (f0 # fs). bothPinchFrame cfg (snd f)) \<and> holdFrame cfg (snd g) \<and>
    \<not> isDragging (STATE s) \<and> dragStartTime (STATE s) \<noteq> 0 \<and>
    200 < now (fst g) - dragStartTime (STATE s)"
  then show "\<exists>ss. run cfg (f0 # fs @ [g]) s = Inr ss \<and>
         map eventsOf ss =
           (if isMiddleDragging (STATE s) then {DRAG_MIDDLE_MOVE} else {DRAG_MIDDLE_START})
             # replicate (length fs) {DRAG_MIDDLE_MOVE} @ [{DRAG_MIDDLE_END, DRAG_START}] \<and>
         isDragging (STATE (last ss))"
    using drag_after_middle_pinch [of f0 fs cfg g s] by blast
qed (use middle_pinch_calls [of cfg res env s f0 fs] in blast)+

lemma bothPinchFrame_sample: "bothPinchFrame defaultConfig (frameOf bothPinchHand)"
  by (simp add: bothPinchFrame_def frameOf_def selectedHand_resultOf pinches_bothPinchHand)

theorem middle_pinch_precedence_witness:
  "bothPinchFrame defaultConfig (frameOf bothPinchHand) \<and>
   (\<exists>s'. handleResult defaultConfig (envAt 1100) (frameOf bothPinchHand) holdingInterp = Inr s' \<and>
      modeOf s' = ModeRotate \<and> eventsOf s' = {DRAG_MIDDLE_START} \<and>
      \<not> isDragging (STATE s') \<and> dragStartTime (STATE s') = 1000) \<and>
   (\<exists>ss. run defaultConfig
        [(envAt 1100, frameOf bothPinchHand), (envAt 1500, frameOf bothPinchHand),
         (envAt 1900, frameOf bothPinchHand)] holdingInterp = Inr ss \<and>
      map eventsOf ss = [{DRAG_MIDDLE_START}, {DRAG_MIDDLE_MOVE}, {DRAG_MIDDLE_MOVE}] \<and>
      list_all (\<lambda>s'. modeOf s' = ModeRotate \<and> \<not> isDragging (STATE s') \<and>
        dragStartTime (STATE s') = 1000) ss) \<and>
   (\<exists>ss. run defaultConfig
        [(envAt 1100, frameOf bothPinchHand), (envAt 1500, frameOf bothPinchHand),
         (envAt 1900, frameOf bothPinchHand), (envAt 1933, frameOf pinchHand)] holdingInterp
        = Inr ss \<and>
      map eventsOf ss =
        [{DRAG_MIDDLE_START}, {DRAG_MIDDLE_MOVE}, {DRAG_MIDDLE_MOVE},
         {DRAG_MIDDLE_END, DRAG_START}] \<and>
      isDragging (STATE (last ss)))"
proof -
  have s: "\<not> isMiddleDragging (STATE holdingInterp)" "\<not> isDragging (STATE holdingInterp)"
    "dragStartTime (STATE holdingInterp) = 1000"
    by (simp_all add: holdingInterp_def initialSTATE_def)
  have all: "\<forall>f\<in>set ((envAt 1100, frameOf bothPinchHand) #
         [(envAt 1500, frameOf bothPinchHand), (envAt 1900, frameOf bothPinchHand)]).
       bothPinchFrame defaultConfig (snd f)"
    by (simp add: bothPinchFrame_sample)
  have g: "holdFrame defaultConfig (snd (envAt 1933, frameOf pinchHand))"
    "200 < now (fst (envAt 1933, frameOf pinchHand)) - dragStartTime (STATE holdingInterp)"
    by (simp_all add: holdFrame_sample envAt_def s)
  note inst = middle_pinch_precedence [of defaultConfig "frameOf bothPinchHand" "envAt 1100"
        holdingInterp "(envAt 1100, frameOf bothPinchHand)"
        "[(envAt 1500, frameOf bothPinchHand), (envAt 1900, frameOf bothPinchHand)]"
        "(envAt 1933, frameOf pinchHand)"]
  have one: "\<exists>s'. handleResult defaultConfig (envAt 1100) (frameOf bothPinchHand) holdingInterp
        = Inr s' \<and>
      modeOf s' = ModeRotate \<and> eventsOf s' = {DRAG_MIDDLE_START} \<and>
      \<not> isDragging (STATE s') \<and> dragStartTime (STATE s') = 1000"
    using inst bothPinchFrame_sample by (auto simp add: s simp del: run.simps)
  have "\<exists>ss. run defaultConfig
        ((envAt 1100, frameOf bothPinchHand) #
         [(envAt 1500, frameOf bothPinchHand), (envAt 1900, frameOf bothPinchHand)])
        holdingInterp = Inr ss \<and>
      map eventsOf ss =
        (if isMiddleDragging (STATE holdingInterp) then {DRAG_MIDDLE_MOVE}
         else {DRAG_MIDDLE_START})
          # replicate (length [(envAt 1500, frameOf bothPinchHand),
              (envAt 1900, frameOf bothPinchHand)]) {DRAG_MIDDLE_MOVE} \<and>
      (\<forall>s'\<in>set ss. modeOf s' = ModeRotate \<and>
         isDragging (STATE s') = isDragging (STATE holdingInterp) \<and>
         dragStartTime (STATE s') = dragStartTime (STATE holdingInterp))"
    by (rule inst [THEN conjunct2, THEN conjunct1, THEN mp]) (rule all)
  then have two: "\<exists>ss. run defaultConfig
        [(envAt 1100, frameOf bothPinchHand), (envAt 1500, frameOf bothPinchHand),
         (envAt 1900, frameOf bothPinchHand)] holdingInterp = Inr ss \<and>
      map eventsOf ss = [{DRAG_MIDDLE_START}, {DRAG_MIDDLE_MOVE}, {DRAG_MIDDLE_MOVE}] \<and>
      list_all (\<lambda>s'. modeOf s' = ModeRotate \<and> \<not> isDragging (STATE s') \<and>
        dragStartTime (STATE s') = 1000) ss"
    by (simp add: s list_all_iff del: run.simps)
  have "\<exists>ss. run defaultConfig
        ((envAt 1100, frameOf bothPinchHand) #
         [(envAt 1500, frameOf bothPinchHand), (envAt 1900, frameOf bothPinchHand)] @
         [(envAt 1933, frameOf pinchHand)])
        holdingInterp = Inr ss \<and>
      map eventsOf ss =
        (if isMiddleDragging (STATE holdingInterp) then {DRAG_MIDDLE_MOVE}
         else {DRAG_MIDDLE_START})
          # replicate (length [(envAt 1500, frameOf bothPinchHand),
              (envAt 1900, frameOf bothPinchHand)]) {DRAG_MIDDLE_MOVE} @
            [{DRAG_MIDDLE_END, DRAG_START}] \<and>
      isDragging (STATE (last ss))"
    by (rule inst [THEN conjunct2, THEN conjunct2, THEN mp]) (use all g s in simp)
  then have three: "\<exists>ss. run defaultConfig
        [(envAt 1100, frameOf bothPinchHand), (envAt 1500, frameOf bothPinchHand),
         (envAt 1900, frameOf bothPinchHand), (envAt 1933, frameOf pinchHand)] holdingInterp
        = Inr ss \<and>
      map eventsOf ss =
        [{DRAG_MIDDLE_START}, {DRAG_MIDDLE_MOVE}, {DRAG_MIDDLE_MOVE},
         {DRAG_MIDDLE_END, DRAG_START}] \<and>
      isDragging (STATE (last ss))"
    by (simp add: s del: run.simps)
  from bothPinchFrame_sample one two three show ?thesis
    by blast
qed

section \<open>Short presses and the double click\<close>

lemma runTimers_quiet:
  assumes "\<forall>due. clickTimer (STATE s) = Some due \<longrightarrow> t < due"
  shows "runTimers t s = s"
proof (cases "clickTimer (STATE s)")
  case None
  then show ?thesis by (simp add: runTimers_def)
next
  case (Some due)
  with assms have "t < due" by simp
  with Some show ?thesis by (simp add: runTimers_def)
qed

lemma run_hold_waiting_quiet:
  assumes "\<forall>f\<in>set fs. holdFrame cfg (snd f) \<and> now (fst f) - t0 \<le> 200 \<and>
             (\<forall>due. clickTimer (STATE s) = Some due \<longrightarrow> now (fst f) < due)"
    and "\<not> isDragging (STATE s)" and "\<not> isMiddleDragging (STATE s)"
    and "dragStartTime (STATE s) = t0" and "t0 \<noteq> 0"
  shows "\<exists>ss. run cfg fs s = Inr ss \<and>
           map eventsOf ss = replicate (length fs) {} \<and>
           (\<forall>s'\<in>set (s # ss). STATE s' = STATE s)"
  using assms
proof (induction fs arbitrary: s)
  case Nil
  then show ?case by simp
next
  case (Cons f fs)
  from Cons.prems(1) have f: "pinchFrame cfg (snd f) True False" "now (fst f) - t0 \<le> 200"
    and quiet: "runTimers (now (fst f)) s = s"
    by (simp_all add: holdFrame_def runTimers_quiet)
  from step_pinchFrame [OF f(1), of "now (fst f)" s] obtain s' where
    call: "handleResult cfg (fst f) (snd f) (runTimers (now (fst f)) s) = Inr s'"
    and step: "(STATE s', modeOf s', eventsOf s') =
       stateMachine (now (fst f)) True False True (STATE s) (modeOf s)"
    by (auto simp add: quiet)
  have "stateMachine (now (fst f)) True False True (STATE s) (modeOf s)
      = (STATE s, modeOf s, {})"
    using Cons.prems f(2) by (intro stateMachine_hold_wait) simp_all
  with step have here: "eventsOf s' = {}" "STATE s' = STATE s"
    by simp_all
  from Cons.prems(1) here(2)
  have "\<forall>f\<in>set fs. holdFrame cfg (snd f) \<and> now (fst f) - t0 \<le> 200 \<and>
             (\<forall>due. clickTimer (STATE s') = Some due \<longrightarrow> now (fst f) < due)"
    by simp
  from Cons.IH [OF this] Cons.prems(2,3,4,5) here(2) obtain ss where
    rest: "run cfg fs s' = Inr ss"
    and ev: "map eventsOf ss = replicate (length fs) {}"
    and inv: "\<forall>s''\<in>set (s' # ss). STATE s'' = STATE s'"
    by auto
  have "run cfg (f # fs) s = Inr (s' # ss)"
    using call rest by (rule run_Cons)
  with ev inv here show ?case
    by simp
qed

text \<open>The first pinched call of a press, with no drag on and the hold timer unset: the
  timer is started; a middle drag that was still on ends in the same call.\<close>

lemma stateMachine_hold_start_any:
  assumes "\<not> isDragging st" and "dragStartTime st = 0" and "t \<noteq> 0"
  shows "stateMachine t True False act st md =
           (st\<lparr>isMiddleDragging := False, dragStartTime := t\<rparr>, md,
            if isMiddleDragging st then {DRAG_MIDDLE_END} else {})"
  using assms
  by (cases st) (simp add: stateMachine_def middleRelease_def indexPinch_def)

text \<open>An open hand while nothing is going on moves the pointer and changes nothing.\<close>

lemma stateMachine_open_idle:
  assumes "\<not> isDragging st" and "\<not> isMiddleDragging st" and "dragStartTime st = 0"
  shows "stateMachine t False False True st md = (st, ModeNone, {POINTER_MOVE})"
  using assms by (simp add: stateMachine_def middleRelease_def indexRelease_def)

lemma run_open_idle:
  assumes "\<forall>f\<in>set fs. releaseFrame cfg (snd f) \<and>
             (\<forall>due. clickTimer (STATE s) = Some due \<longrightarrow> now (fst f) < due)"
    and "\<not> isDragging (STATE s)" and "\<not> isMiddleDragging (STATE s)"
    and "dragStartTime (STATE s) = 0"
  shows "\<exists>ss. run cfg fs s = Inr ss \<and>
           map eventsOf ss = replicate (length fs) {POINTER_MOVE} \<and>
           (\<forall>s'\<in>set (s # ss). STATE s' = STATE s)"
  using assms
proof (induction fs arbitrary: s)
  case Nil
  then show ?case by simp
next
  case (Cons f fs)
  from Cons.prems(1) have f: "pinchFrame cfg (snd f) False False"
    and quiet: "runTimers (now (fst f)) s = s"
    by (simp_all add: releaseFrame_def runTimers_quiet)
  from step_pinchFrame [OF f, of "now (fst f)" s] obtain s' where
    call: "handleResult cfg (fst f) (snd f) (runTimers (now (fst f)) s) = Inr s'"
    and step: "(STATE s', modeOf s', eventsOf s') =
       stateMachine (now (fst f)) False False True (STATE s) (modeOf s)"
    by (auto simp add: quiet)
  have "stateMachine (now (fst f)) False False True (STATE s) (modeOf s)
      = (STATE s, ModeNone, {POINTER_MOVE})"
    using Cons.prems by (intro stateMachine_open_idle) simp_all
  with step have here: "eventsOf s' = {POINTER_MOVE}" "STATE s' = STATE s"
    by simp_all
  from Cons.prems(1) here(2)
  have "\<forall>f\<in>set fs. releaseFrame cfg (snd f) \<and>
             (\<forall>due. clickTimer (STATE s') = Some due \<longrightarrow> now (fst f) < due)"
    by simp
  from Cons.IH [OF this] Cons.prems(2,3,4) here(2) obtain ss where
    rest: "run cfg fs s' = Inr ss"
    and ev: "map eventsOf ss = replicate (length fs) {POINTER_MOVE}"
    and inv: "\<forall>s''\<in>set (s' # ss). STATE s'' = STATE s'"
    by auto
  have "run cfg (f # fs) s = Inr (s' # ss)"
    using call rest by (rule run_Cons)
  with ev inv here show ?case
    by simp
qed

text \<open>A press that no call sees for more than 200ms, with no drag on and the hold timer
  unset: the timer is started and nothing else changes; no event is set, but for the end
  of a middle drag in the first call.\<close>

lemma run_short_press:
  assumes "\<not> isDragging (STATE s)" and "dragStartTime (STATE s) = 0"
    and "\<forall>q\<in>set (p # pre). holdFrame cfg (snd q) \<and> now (fst q) - now (fst p) \<le> 200 \<and>
             (\<forall>due. clickTimer (STATE s) = Some due \<longrightarrow> now (fst q) < due)"
    and "now (fst p) \<noteq> 0"
  shows "\<exists>ss. run cfg (p # pre) s = Inr ss \<and>
           map eventsOf ss =
             (if isMiddleDragging (STATE s) then {DRAG_MIDDLE_END} else {})
               # replicate (length pre) {} \<and>
           STATE (last ss) = (STATE s)\<lparr>isMiddleDragging := False, dragStartTime := now (fst p)\<rparr>"
proof -
  let ?t0 = "now (fst p)"
  from assms(3) have hp: "pinchFrame cfg (snd p) True False"
    and quiet: "runTimers ?t0 s = s"
    by (simp_all add: holdFrame_def runTimers_quiet)
  from step_pinchFrame [OF hp, of ?t0 s] obtain s1 where
    call1: "handleResult cfg (fst p) (snd p) (runTimers ?t0 s) = Inr s1"
    and step1: "(STATE s1, modeOf s1, eventsOf s1) =
       stateMachine ?t0 True False True (STATE s) (modeOf s)"
    by (auto simp add: quiet)
  have "stateMachine ?t0 True False True (STATE s) (modeOf s)
      = ((STATE s)\<lparr>isMiddleDragging := False, dragStartTime := ?t0\<rparr>, modeOf s,
         if isMiddleDragging (STATE s) then {DRAG_MIDDLE_END} else {})"
    using assms(1,2,4) by (rule stateMachine_hold_start_any)
  with step1 have s1:
    "eventsOf s1 = (if isMiddleDragging (STATE s) then {DRAG_MIDDLE_END} else {})"
    "STATE s1 = (STATE s)\<lparr>isMiddleDragging := False, dragStartTime := ?t0\<rparr>"
    by simp_all
  from assms(3) s1(2)
  have "\<forall>f\<in>set pre. holdFrame cfg (snd f) \<and> now (fst f) - ?t0 \<le> 200 \<and>
             (\<forall>due. clickTimer (STATE s1) = Some due \<longrightarrow> now (fst f) < due)"
    by simp
  from run_hold_waiting_quiet [OF this] assms(1,4) s1(2) obtain ss1 where
    run1: "run cfg pre s1 = Inr ss1"
    and ev1: "map eventsOf ss1 = replicate (length pre) {}"
    and inv1: "\<forall>s'\<in>set (s1 # ss1). STATE s' = STATE s1"
    by auto
  have "last (s1 # ss1) \<in> set (s1 # ss1)"
    by (rule last_in_set) simp
  with inv1 s1(2)
  have st: "STATE (last (s1 # ss1)) = (STATE s)\<lparr>isMiddleDragging := False, dragStartTime := ?t0\<rparr>"
    by auto
  have whole: "run cfg (p # pre) s = Inr (s1 # ss1)"
    using call1 run1 by (rule run_Cons)
  have evs: "map eventsOf (s1 # ss1) =
      (if isMiddleDragging (STATE s) then {DRAG_MIDDLE_END} else {}) # replicate (length pre) {}"
    using s1(1) ev1 by simp
  show ?thesis
    by (intro exI [of _ "s1 # ss1"] conjI whole evs st)
qed

text \<open>The release of a short press: the first one is a click and starts the 300ms
  window, the second one within the window is a double click and closes it.\<close>

lemma step_release_click:
  assumes "releaseFrame cfg (snd r)"
    and "\<not> isDragging (STATE s)" and "\<not> isMiddleDragging (STATE s)"
    and "0 < dragStartTime (STATE s)" and "clickCount (STATE s) = 0"
    and "clickTimer (STATE s) = None"
  shows "\<exists>s'. handleResult cfg (fst r) (snd r) (runTimers (now (fst r)) s) = Inr s' \<and>
           eventsOf s' = {CLICK, POINTER_MOVE} \<and>
           STATE s' = (STATE s)\<lparr>dragStartTime := 0, clickCount := 1,
                                 clickTimer := Some (now (fst r) + 300)\<rparr>"
proof -
  have quiet: "runTimers (now (fst r)) s = s"
    using assms(6) by (simp add: runTimers_quiet)
  from assms(1) have "pinchFrame cfg (snd r) False False"
    by (simp add: releaseFrame_def)
  from step_pinchFrame [OF this, of "now (fst r)" s] obtain s' where
    call: "handleResult cfg (fst r) (snd r) (runTimers (now (fst r)) s) = Inr s'"
    and step: "(STATE s', modeOf s', eventsOf s') =
       stateMachine (now (fst r)) False False True (STATE s) (modeOf s)"
    by (auto simp add: quiet)
  from step show ?thesis
    using call stateMachine_release_click [OF assms(2,3,4,5), of "now (fst r)" "modeOf s"]
    by simp
qed

lemma step_release_double:
  assumes "releaseFrame cfg (snd r)"
    and "\<not> isDragging (STATE s)" and "\<not> isMiddleDragging (STATE s)"
    and "0 < dragStartTime (STATE s)" and "clickCount (STATE s) = 1"
    and "\<forall>due. clickTimer (STATE s) = Some due \<longrightarrow> now (fst r) < due"
  shows "\<exists>s'. handleResult cfg (fst r) (snd r) (runTimers (now (fst r)) s) = Inr s' \<and>
           eventsOf s' = {DOUBLE_CLICK, POINTER_MOVE} \<and>
           STATE s' = (STATE s)\<lparr>dragStartTime := 0, clickCount := 0, clickTimer := None\<rparr>"
proof -
  have quiet: "runTimers (now (fst r)) s = s"
    using assms(6) by (rule runTimers_quiet)
  from assms(1) have "pinchFrame cfg (snd r) False False"
    by (simp add: releaseFrame_def)
  from step_pinchFrame [OF this, of "now (fst r)" s] obtain s' where
    call: "handleResult cfg (fst r) (snd r) (runTimers (now (fst r)) s) = Inr s'"
    and step: "(STATE s', modeOf s', eventsOf s') =
       stateMachine (now (fst r)) False False True (STATE s) (modeOf s)"
    by (auto simp add: quiet)
  from step show ?thesis
    using call stateMachine_release_double [OF assms(2,3,4,5), of "now (fst r)" "modeOf s"]
    by simp
qed

lemma trace_three_presses:
  "traceOf (run defaultConfig
      [(envAt 1000, frameOf pinchHand), (envAt 1100, frameOf openHand),
       (envAt 1150, frameOf pinchHand), (envAt 1200, frameOf openHand),
       (envAt 1250, frameOf pinchHand), (envAt 1300, frameOf openHand)] initialInterp)
     = [({}, ModeNone, False), ({CLICK, POINTER_MOVE}, ModeNone, False),
        ({}, ModeNone, False), ({DOUBLE_CLICK, POINTER_MOVE}, ModeNone, False),
        ({}, ModeNone, False), ({CLICK, POINTER_MOVE}, ModeNone, False)]"
  by (simp add: traceOf_def eventsOf_def modeOf_def runTimers_def model_defs sample_defs
      insert_commute)

lemma trace_presses_stale_timer:
  "traceOf (run defaultConfig
      [(envAt 1000, frameOf pinchHand), (envAt 1100, Some noHands),
       (envAt 5000, frameOf pinchHand), (envAt 5050, frameOf openHand),
       (envAt 5100, frameOf pinchHand), (envAt 5150, frameOf openHand)] initialInterp)
     = [({}, ModeNone, False), ({IDLE}, ModeNone, False),
        ({DRAG_START}, ModeNone, True), ({DRAG_END, POINTER_MOVE}, ModeNone, False),
        ({}, ModeNone, False), ({CLICK, POINTER_MOVE}, ModeNone, False)]"
  by (simp add: traceOf_def eventsOf_def modeOf_def runTimers_def model_defs sample_defs
      insert_commute)

lemma trace_presses_stale_drag:
  "traceOf (run defaultConfig
      [(envAt 1000, frameOf pinchHand), (envAt 1300, frameOf pinchHand),
       (envAt 1316, Some noHands),
       (envAt 5000, frameOf pinchHand), (envAt 5050, frameOf openHand),
       (envAt 5100, frameOf pinchHand), (envAt 5150, frameOf openHand)] initialInterp)
     = [({}, ModeNone, False), ({DRAG_START}, ModeNone, True), ({IDLE}, ModeNone, True),
        ({DRAG_MOVE}, ModeDrag, True), ({DRAG_END, POINTER_MOVE}, ModeNone, False),
        ({}, ModeNone, False), ({CLICK, POINTER_MOVE}, ModeNone, False)]"
  by (simp add: traceOf_def eventsOf_def modeOf_def runTimers_def model_defs sample_defs
      insert_commute)

text \<open>
  Claim C5, as stated: every pair of short presses whose releases are within 300ms of
  each other emits \<open>CLICK\<close> at the first release and \<open>DOUBLE_CLICK\<close> at the second. Three
  runs from the initial state show pairs that do not. Three presses released at 1100,
  1200 and 1300: the second and the third are such a pair and emit \<open>DOUBLE_CLICK\<close>, then
  \<open>CLICK\<close>, a click being pending when the pair begins. A pinch at 1000 and a lost hand at
  1100, then presses of 50ms released at 5050 and 5150: the hold timer of the lost pinch
  is still running, the first press is a drag (\<open>DRAG_START\<close>, \<open>DRAG_END\<close>) and the second
  a \<open>CLICK\<close>. The same after a drag that a lost hand left on: \<open>DRAG_MOVE\<close> and \<open>DRAG_END\<close>,
  then \<open>CLICK\<close>.
\<close>

theorem double_click_counterexample:
  "traceOf (run defaultConfig
      [(envAt 1000, frameOf pinchHand), (envAt 1100, frameOf openHand),
       (envAt 1150, frameOf pinchHand), (envAt 1200, frameOf openHand),
       (envAt 1250, frameOf pinchHand), (envAt 1300, frameOf openHand)] initialInterp)
     = [({}, ModeNone, False), ({CLICK, POINTER_MOVE}, ModeNone, False),
        ({}, ModeNone, False), ({DOUBLE_CLICK, POINTER_MOVE}, ModeNone, False),
        ({}, ModeNone, False), ({CLICK, POINTER_MOVE}, ModeNone, False)] \<and>
   traceOf (run defaultConfig
      [(envAt 1000, frameOf pinchHand), (envAt 1100, Some noHands),
       (envAt 5000, frameOf pinchHand), (envAt 5050, frameOf openHand),
       (envAt 5100, frameOf pinchHand), (envAt 5150, frameOf openHand)] initialInterp)
     = [({}, ModeNone, False), ({IDLE}, ModeNone, False),
        ({DRAG_START}, ModeNone, True), ({DRAG_END, POINTER_MOVE}, ModeNone, False),
        ({}, ModeNone, False), ({CLICK, POINTER_MOVE}, ModeNone, False)] \<and>
   traceOf (run defaultConfig
      [(envAt 1000, frameOf pinchHand), (envAt 1300, frameOf pinchHand),
       (envAt 1316, Some noHands),
       (envAt 5000, frameOf pinchHand), (envAt 5050, frameOf openHand),
       (envAt 5100, frameOf pinchHand), (envAt 5150, frameOf openHand)] initialInterp)
     = [({}, ModeNone, False), ({DRAG_START}, ModeNone, True), ({IDLE}, ModeNone, True),
        ({DRAG_MOVE}, ModeDrag, True), ({DRAG_END, POINTER_MOVE}, ModeNone, False),
        ({}, ModeNone, False), ({CLICK, POINTER_MOVE}, ModeNone, False)]"
  by (intro conjI trace_three_presses trace_presses_stale_timer trace_presses_stale_drag)

text \<open>
  Claim C5, amended. Two short presses of the index pinch, starting with no click
  pending (click counter 0, no timer), no drag on and the hold timer unset. Each press is
  a run of pinched calls none of which comes more than 200ms after the first call of the
  press (so no drag starts), followed by a call with an open hand, the release; any number
  of calls with an open hand may lie between the first release and the second press.
  When the second release comes less than 300ms after the first one, the first release
  emits \<open>CLICK\<close> at once and opens the window (click counter 1, timer due 300ms later),
  and the second release emits \<open>DOUBLE_CLICK\<close> and no \<open>CLICK\<close>, clears the timer and
  resets the click counter. Both releases carry \<open>POINTER_MOVE\<close> as well, as do the calls
  between the presses; the pinched calls set no event, but for \<open>DRAG_MIDDLE_END\<close> in the
  first one when a middle drag was still on. Time is the time of the calls, and the timer
  callback runs before the first call at or after its due time.
\<close>

theorem double_click_sequence:
  assumes "\<not> isDragging (STATE s)" and "dragStartTime (STATE s) = 0"
    and "clickCount (STATE s) = 0" and "clickTimer (STATE s) = None"
    and "\<forall>q\<in>set (p1 # pre1). holdFrame cfg (snd q) \<and> now (fst q) - now (fst p1) \<le> 200"
    and "0 < now (fst p1)"
    and "releaseFrame cfg (snd r1)"
    and "\<forall>q\<in>set gap. releaseFrame cfg (snd q) \<and> now (fst q) \<le> now (fst r2)"
    and "\<forall>q\<in>set (p2 # pre2). holdFrame cfg (snd q) \<and> now (fst q) - now (fst p2) \<le> 200 \<and>
           now (fst q) \<le> now (fst r2)"
    and "0 < now (fst p2)"
    and "releaseFrame cfg (snd r2)"
    and "now (fst r2) - now (fst r1) < 300"
  shows "\<exists>ss. run cfg (p1 # pre1 @ r1 # gap @ p2 # pre2 @ [r2]) s = Inr ss \<and>
           map eventsOf ss =
             (if isMiddleDragging (STATE s) then {DRAG_MIDDLE_END} else {}) #
             replicate (length pre1) {} @ {CLICK, POINTER_MOVE} #
             replicate (length gap) {POINTER_MOVE} @
             replicate (Suc (length pre2)) {} @ [{DOUBLE_CLICK, POINTER_MOVE}] \<and>
           clickCount (STATE (ss ! Suc (length pre1))) = 1 \<and>
           clickTimer (STATE (ss ! Suc (length pre1))) = Some (now (fst r1) + 300) \<and>
           clickCount (STATE (last ss)) = 0 \<and>
           clickTimer (STATE (last ss)) = None"
proof -
  let ?t1 = "now (fst p1)" and ?t2 = "now (fst p2)" and ?due = "now (fst r1) + 300"
  \<comment> \<open>the first press\<close>
  from assms(4,5)
  have "\<forall>q\<in>set (p1 # pre1). holdFrame cfg (snd q) \<and> now (fst q) - ?t1 \<le> 200 \<and>
          (\<forall>due. clickTimer (STATE s) = Some due \<longrightarrow> now (fst q) < due)"
    by simp
  from run_short_press [OF assms(1,2) this] assms(6) obtain ss1 where
    run1: "run cfg (p1 # pre1) s = Inr ss1"
    and ev1: "map eventsOf ss1 =
      (if isMiddleDragging (STATE s) then {DRAG_MIDDLE_END} else {}) # replicate (length pre1) {}"
    and st1: "STATE (last ss1) = (STATE s)\<lparr>isMiddleDragging := False, dragStartTime := ?t1\<rparr>"
    by auto
  from ev1 have len1: "length ss1 = Suc (length pre1)"
    by (metis length_Cons length_map length_replicate)
  then have ne1: "ss1 \<noteq> []"
    by auto
  let ?a = "last ss1"
  from st1 assms(1,3,4,6) have a: "\<not> isDragging (STATE ?a)" "\<not> isMiddleDragging (STATE ?a)"
    "0 < dragStartTime (STATE ?a)" "clickCount (STATE ?a) = 0" "clickTimer (STATE ?a) = None"
    by simp_all
  \<comment> \<open>its release\<close>
  from step_release_click [OF assms(7) a] obtain a1 where
    call1: "handleResult cfg (fst r1) (snd r1) (runTimers (now (fst r1)) ?a) = Inr a1"
    and eva1: "eventsOf a1 = {CLICK, POINTER_MOVE}"
    and sta1: "STATE a1 = (STATE ?a)\<lparr>dragStartTime := 0, clickCount := 1,
                                     clickTimer := Some ?due\<rparr>"
    by blast
  from sta1 a have a1: "\<not> isDragging (STATE a1)" "\<not> isMiddleDragging (STATE a1)"
    "dragStartTime (STATE a1) = 0" "clickCount (STATE a1) = 1"
    "clickTimer (STATE a1) = Some ?due"
    by simp_all
  \<comment> \<open>the open hand between the presses\<close>
  from assms(8,12) a1(5)
  have "\<forall>q\<in>set gap. releaseFrame cfg (snd q) \<and>
          (\<forall>due. clickTimer (STATE a1) = Some due \<longrightarrow> now (fst q) < due)"
    by auto
  from run_open_idle [OF this a1(1,2,3)] obtain ssg where
    rung: "run cfg gap a1 = Inr ssg"
    and evg: "map eventsOf ssg = replicate (length gap) {POINTER_MOVE}"
    and invg: "\<forall>s'\<in>set (a1 # ssg). STATE s' = STATE a1"
    by blast
  let ?g = "last (a1 # ssg)"
  have "?g \<in> set (a1 # ssg)"
    by (rule last_in_set) simp
  with invg have stg: "STATE ?g = STATE a1"
    by blast
  \<comment> \<open>the second press, inside the window\<close>
  from assms(9,12) a1(5) stg
  have "\<forall>q\<in>set (p2 # pre2). holdFrame cfg (snd q) \<and> now (fst q) - ?t2 \<le> 200 \<and>
          (\<forall>due. clickTimer (STATE ?g) = Some due \<longrightarrow> now (fst q) < due)"
    by auto
  from run_short_press [OF _ _ this] a1(1,2,3) stg assms(10) obtain ss2 where
    run2: "run cfg (p2 # pre2) ?g = Inr ss2"
    and ev2: "map eventsOf ss2 = replicate (Suc (length pre2)) {}"
    and st2: "STATE (last ss2) = (STATE a1)\<lparr>isMiddleDragging := False, dragStartTime := ?t2\<rparr>"
    by auto
  from ev2 have "length ss2 = Suc (length pre2)"
    by (metis length_map length_replicate)
  then have ne2: "ss2 \<noteq> []"
    by auto
  let ?b = "last ss2"
  from st2 a1 assms(10,12) have b: "\<not> isDragging (STATE ?b)" "\<not> isMiddleDragging (STATE ?b)"
    "0 < dragStartTime (STATE ?b)" "clickCount (STATE ?b) = 1"
    "\<forall>due. clickTimer (STATE ?b) = Some due \<longrightarrow> now (fst r2) < due"
    by simp_all
  \<comment> \<open>its release\<close>
  from step_release_double [OF assms(11) b] obtain a2 where
    call2: "handleResult cfg (fst r2) (snd r2) (runTimers (now (fst r2)) ?b) = Inr a2"
    and eva2: "eventsOf a2 = {DOUBLE_CLICK, POINTER_MOVE}"
    and sta2: "STATE a2 = (STATE ?b)\<lparr>dragStartTime := 0, clickCount := 0, clickTimer := None\<rparr>"
    by blast
  \<comment> \<open>the whole run\<close>
  have "run cfg [r2] (last (?g # ss2)) = Inr [a2]"
    using call2 ne2 by simp
  with run2 have "run cfg ((p2 # pre2) @ [r2]) ?g = Inr (ss2 @ [a2])"
    by (rule run_append)
  with rung have "run cfg (gap @ (p2 # pre2) @ [r2]) a1 = Inr (ssg @ ss2 @ [a2])"
    by (rule run_append)
  with call1 have "run cfg (r1 # gap @ (p2 # pre2) @ [r2]) (last (s # ss1))
      = Inr (a1 # ssg @ ss2 @ [a2])"
    using ne1 by simp
  with run1 have "run cfg ((p1 # pre1) @ r1 # gap @ (p2 # pre2) @ [r2]) s
      = Inr (ss1 @ a1 # ssg @ ss2 @ [a2])"
    by (rule run_append)
  then have whole: "run cfg (p1 # pre1 @ r1 # gap @ p2 # pre2 @ [r2]) s
      = Inr (ss1 @ a1 # ssg @ ss2 @ [a2])"
    by simp
  have evs: "map eventsOf (ss1 @ a1 # ssg @ ss2 @ [a2]) =
      (if isMiddleDragging (STATE s) then {DRAG_MIDDLE_END} else {}) #
      replicate (length pre1) {} @ {CLICK, POINTER_MOVE} #
      replicate (length gap) {POINTER_MOVE} @
      replicate (Suc (length pre2)) {} @ [{DOUBLE_CLICK, POINTER_MOVE}]"
    using ev1 eva1 evg ev2 eva2 by simp
  have "(ss1 @ a1 # ssg @ ss2 @ [a2]) ! Suc (length pre1) = a1"
    using len1 by (metis nth_append_length)
  then have mid: "clickCount (STATE ((ss1 @ a1 # ssg @ ss2 @ [a2]) ! Suc (length pre1))) = 1"
    "clickTimer (STATE ((ss1 @ a1 # ssg @ ss2 @ [a2]) ! Suc (length pre1))) = Some ?due"
    using a1(4,5) by simp_all
  have fin: "clickCount (STATE (last (ss1 @ a1 # ssg @ ss2 @ [a2]))) = 0"
    "clickTimer (STATE (last (ss1 @ a1 # ssg @ ss2 @ [a2]))) = None"
    using sta2 by simp_all
  show ?thesis
    by (intro exI [of _ "ss1 @ a1 # ssg @ ss2 @ [a2]"] conjI whole evs mid fin)
qed

theorem double_click_sequence_witness:
  "\<exists>ss. run defaultConfig
      [(envAt 1000, frameOf pinchHand), (envAt 1100, frameOf pinchHand),
       (envAt 1150, frameOf openHand),
       (envAt 1180, frameOf openHand), (envAt 1210, frameOf openHand),
       (envAt 1250, frameOf pinchHand), (envAt 1300, frameOf pinchHand),
       (envAt 1400, frameOf openHand)] initialInterp = Inr ss \<and>
     map eventsOf ss =
       [{}, {}, {CLICK, POINTER_MOVE}, {POINTER_MOVE}, {POINTER_MOVE}, {}, {},
        {DOUBLE_CLICK, POINTER_MOVE}] \<and>
     clickTimer (STATE (ss ! 2)) = Some 1450 \<and>
     clickCount (STATE (last ss)) = 0 \<and>
     clickTimer (STATE (last ss)) = None"
proof -
  have init: "\<not> isDragging (STATE initialInterp)"
    "dragStartTime (STATE initialInterp) = 0" "clickCount (STATE initialInterp) = 0"
    "clickTimer (STATE initialInterp) = None"
    by (simp_all add: initialInterp_def initialSTATE_def)
  have mid: "\<not> isMiddleDragging (STATE initialInterp)"
    by (simp add: initialInterp_def initialSTATE_def)
  have press1: "\<forall>q\<in>set ((envAt 1000, frameOf pinchHand) # [(envAt 1100, frameOf pinchHand)]).
      holdFrame defaultConfig (snd q) \<and>
      now (fst q) - now (fst (envAt 1000, frameOf pinchHand)) \<le> 200"
    by (simp add: holdFrame_sample envAt_def)
  have gap: "\<forall>q\<in>set [(envAt 1180, frameOf openHand), (envAt 1210, frameOf openHand)].
      releaseFrame defaultConfig (snd q) \<and>
      now (fst q) \<le> now (fst (envAt 1400, frameOf openHand))"
    by (simp add: releaseFrame_sample envAt_def)
  have press2: "\<forall>q\<in>set ((envAt 1250, frameOf pinchHand) # [(envAt 1300, frameOf pinchHand)]).
      holdFrame defaultConfig (snd q) \<and>
      now (fst q) - now (fst (envAt 1250, frameOf pinchHand)) \<le> 200 \<and>
      now (fst q) \<le> now (fst (envAt 1400, frameOf openHand))"
    by (simp add: holdFrame_sample envAt_def)
  have rel: "releaseFrame defaultConfig (snd (envAt 1150, frameOf openHand))"
    "releaseFrame defaultConfig (snd (envAt 1400, frameOf openHand))"
    by (simp_all add: releaseFrame_sample)
  have times: "0 < now (fst (envAt 1000, frameOf pinchHand))"
    "0 < now (fst (envAt 1250, frameOf pinchHand))"
    "now (fst (envAt 1400, frameOf openHand)) - now (fst (envAt 1150, frameOf openHand)) < 300"
    by (simp_all add: envAt_def)
  have n: "(2::nat) = Suc (Suc 0)"
    by simp
  from double_click_sequence
    [OF init press1 times(1) rel(1) gap press2 times(2) rel(2) times(3)]
  show ?thesis
    unfolding n
    apply (simp add: envAt_def mid del: run.simps)
    apply (elim exE conjE)
    apply (intro exI conjI)
        apply assumption+
    done
qed

section \<open>The smoothing buffer\<close>

lemma smooth_fill:
  "run smoothConfig
     [(envAt 0, frameOf openHand), (envAt 16, frameOf openHand), (envAt 32, frameOf openHand),
      (envAt 48, frameOf openHand), (envAt 64, frameOf openHand), (envAt 80, frameOf openHand),
      (envAt 96, frameOf openHand), (envAt 112, frameOf openHand),
      (envAt 128, frameOf openHand), (envAt 144, frameOf openHand)] initialInterp
   = Inr [filledInterp [centre],
          filledInterp [centre, centre],
          filledInterp [centre, centre, centre],
          filledInterp [centre, centre, centre, centre],
          filledInterp [centre, centre, centre, centre, centre],
          filledInterp [centre, centre, centre, centre, centre, centre],
          filledInterp [centre, centre, centre, centre, centre, centre, centre],
          filledInterp [centre, centre, centre, centre, centre, centre, centre, centre],
          filledInterp [centre, centre, centre, centre, centre, centre, centre, centre, centre],
          filledInterp [centre, centre, centre, centre, centre, centre, centre, centre, centre,
            centre]]"
  by (simp add: runTimers_def model_defs sample_defs)

text \<open>What holds of the buffer: the cursor is the arithmetic mean of the buffer times the
  viewport, a buffer within the size of the profile stays within it, and a buffer within
  the size \<open>n\<close> holds nothing but \<open>p\<close> after \<open>n\<close> or more pushes of \<open>p\<close>.\<close>

lemma foldl_add_sum_list:
  "foldl (\<lambda>sum p. sum + g p) a buf = a + sum_list (map g buf)"
  for a :: real
  by (induction buf arbitrary: a) simp_all

lemma avg_mean:
  "avgX buf = sum_list (map px buf) / real (length buf)"
  "avgY buf = sum_list (map py buf) / real (length buf)"
  by (simp_all add: avgX_def avgY_def foldl_add_sum_list)

lemma cursor_is_mean:
  assumes "selectedHand cfg r = Some (i, h)" and "9 < length h"
  shows "\<exists>s'. handleResult cfg env (Some r) s = Inr s' \<and>
           cx (cursor (gestureState s')) =
             sum_list (map px (positionBuffer s')) / real (length (positionBuffer s'))
               * innerWidth env \<and>
           cy (cursor (gestureState s')) =
             sum_list (map py (positionBuffer s')) / real (length (positionBuffer s'))
               * innerHeight env"
  by (simp add: handleResult_selected [OF assms(1)] processHand_tip [OF assms(2)] avg_mean)

lemma pushPosition_length_le:
  assumes "length buf \<le> n" and "0 < n"
  shows "length (pushPosition n p buf) \<le> n"
  using assms by (simp add: pushPosition_def Let_def)

lemma pushPosition_overlong:
  assumes "n < length buf"
  shows "length (pushPosition n p buf) = length buf"
  using assms by (simp add: pushPosition_def Let_def)

lemma pushPosition_suffix:
  assumes "length (old @ replicate j p) \<le> n" and "j < n"
  shows "\<exists>old'. pushPosition n p (old @ replicate j p) = old' @ replicate (Suc j) p \<and>
           length (old' @ replicate (Suc j) p) \<le> n"
proof (cases "length (old @ replicate j p) < n")
  case True
  then have "pushPosition n p (old @ replicate j p) = old @ replicate (Suc j) p"
    by (simp add: pushPosition_def Let_def replicate_append_same)
  with True show ?thesis
    by (intro exI [of _ old]) simp
next
  case False
  with assms have full: "length old + j = n"
    by simp
  with assms(2) obtain a old' where old: "old = a # old'"
    by (cases old) auto
  with full have "pushPosition n p (old @ replicate j p) = old' @ replicate (Suc j) p"
    by (simp add: pushPosition_def Let_def replicate_append_same)
  with full old show ?thesis
    by (intro exI [of _ old']) simp
qed

lemma pushPosition_constant_upto:
  assumes "length buf \<le> n" and "j \<le> n"
  shows "\<exists>old. (pushPosition n p ^^ j) buf = old @ replicate j p \<and>
           length (old @ replicate j p) \<le> n"
  using assms(2)
proof (induction j)
  case 0
  with assms(1) show ?case by simp
next
  case (Suc j)
  then obtain old where "(pushPosition n p ^^ j) buf = old @ replicate j p"
    and "length (old @ replicate j p) \<le> n"
    by auto
  with Suc.prems pushPosition_suffix [of old j p n] show ?case
    by auto
qed

lemma pushPosition_full:
  assumes "0 < n"
  shows "pushPosition n p (replicate n p) = replicate n p"
proof -
  from assms obtain m where "n = Suc m"
    by (cases n) auto
  then show ?thesis
    by (simp add: pushPosition_def Let_def replicate_append_same)
qed

lemma pushPosition_constant:
  assumes "length buf \<le> n" and "0 < n"
  shows "(pushPosition n p ^^ (n + k)) buf = replicate n p"
proof (induction k)
  case 0
  from pushPosition_constant_upto [OF assms(1), of n p] obtain old where
    "(pushPosition n p ^^ n) buf = old @ replicate n p" "length (old @ replicate n p) \<le> n"
    by auto
  then show ?case by simp
next
  case (Suc k)
  then show ?case
    by (simp add: pushPosition_full [OF assms(2)])
qed

lemma avg_replicate:
  assumes "0 < n"
  shows "avgX (replicate n p) = px p" "avgY (replicate n p) = py p"
  using assms by (simp_all add: avg_mean sum_list_replicate)

text \<open>
  Claim C9 says that on every step the buffer holds the most recent mapped positions
  bounded by the size of the profile, and that the smoothed output equals a repeated
  position once at least that many samples were pushed. The buffer gives up one entry per
  call at most. After ten open hands under the profile Smooth the buffer holds ten
  samples; under the profile Fast (size 2) two calls with the index tip at the mapped
  position \<open>(0.5, 0.25)\<close>, which is \<open>(960, 270)\<close> on the screen, leave ten entries in the
  buffer each time, and the cursor at 513 and 486 pixels from the top.
\<close>

theorem lowered_profile_keeps_long_buffer:
  "run smoothConfig
     [(envAt 0, frameOf openHand), (envAt 16, frameOf openHand), (envAt 32, frameOf openHand),
      (envAt 48, frameOf openHand), (envAt 64, frameOf openHand), (envAt 80, frameOf openHand),
      (envAt 96, frameOf openHand), (envAt 112, frameOf openHand),
      (envAt 128, frameOf openHand), (envAt 144, frameOf openHand)] initialInterp
   = Inr [filledInterp [centre],
          filledInterp [centre, centre],
          filledInterp [centre, centre, centre],
          filledInterp [centre, centre, centre, centre],
          filledInterp [centre, centre, centre, centre, centre],
          filledInterp [centre, centre, centre, centre, centre, centre],
          filledInterp [centre, centre, centre, centre, centre, centre, centre],
          filledInterp [centre, centre, centre, centre, centre, centre, centre, centre],
          filledInterp [centre, centre, centre, centre, centre, centre, centre, centre, centre],
          filledInterp [centre, centre, centre, centre, centre, centre, centre, centre, centre,
            centre]] \<and>
   bufferSizeOf fastConfig = 2 \<and>
   mapPoint 0.8 (raisedHand ! 8) = \<lparr>px = 0.5, py = 0.25\<rparr> \<and>
   cursorTrace (run fastConfig
     [(envAt 160, frameOf raisedHand), (envAt 176, frameOf raisedHand)]
     (filledInterp [centre, centre, centre, centre, centre, centre, centre, centre, centre,
        centre]))
   = [(10, 960, 513), (10, 960, 486)]"
proof -
  have size: "bufferSizeOf fastConfig = 2"
    by (simp add: bufferSizeOf_def BUFFER_SIZE_MAP_def fastConfig_def)
  have mapped: "mapPoint 0.8 (raisedHand ! 8) = \<lparr>px = 0.5, py = 0.25\<rparr>"
    by (simp add: mapPoint_def raisedHand_def handOf_def lm_def Let_def)
  have trace: "cursorTrace (run fastConfig
     [(envAt 160, frameOf raisedHand), (envAt 176, frameOf raisedHand)]
     (filledInterp [centre, centre, centre, centre, centre, centre, centre, centre, centre,
        centre]))
   = [(10, 960, 513), (10, 960, 486)]"
    by (simp add: cursorTrace_def runTimers_def model_defs sample_defs)
  show ?thesis
    by (intro conjI smooth_fill size mapped trace)
qed

end
